theory Spec2Isabelle
  imports Complex_Main "HOL-Library.AList" "HOL-Library.Product_Lexorder"
begin

section \<open>JavaScript values\<close>

text \<open>
  The migration code handles rows of type \<^verbatim>\<open>any\<close>.  A cell is one of the values below.
  A number is a double: a finite value (a rational), an infinity, or NaN.  A \<^verbatim>\<open>Date\<close>
  instance is its time value in milliseconds since the epoch (the instances met here are
  valid dates); any other object (array, plain object) is known only by its reference, so
  that equality of \<open>JObj\<close> values is reference identity, as \<^verbatim>\<open>===\<close> is on objects.
  Reference 0 is \<^verbatim>\<open>Object.prototype\<close>.  A function is known by its name.
\<close>

datatype jsnum = NaN | PosInf | NegInf | Fin rat

datatype jsval =
    JUndefined
  | JNull
  | JBool bool
  | JNum jsnum
  | JStr string
  | JDate int
  | JObj nat
  | JFun string

text \<open>
  The library functions the code calls and this development does not interpret: they are
  parameters of every definition that reaches them.
\<close>

record js_env =
  to_string :: "jsval \<Rightarrow> string"          \<comment> \<open>\<^verbatim>\<open>String(v)\<close> for a \<open>v\<close> that is not a string\<close>
  to_number :: "jsval \<Rightarrow> jsnum"           \<comment> \<open>\<^verbatim>\<open>Number(v)\<close> for a \<open>v\<close> that is not a number\<close>
  new_Date :: "jsval \<Rightarrow> int option"       \<comment> \<open>time value of \<^verbatim>\<open>new Date(v)\<close>, \<open>None\<close> when it is NaN\<close>
  JSON_parse :: "string \<Rightarrow> jsval option"  \<comment> \<open>\<open>None\<close> when \<^verbatim>\<open>JSON.parse\<close> throws\<close>
  fresh_obj :: nat                          \<comment> \<open>the reference of a new \<^verbatim>\<open>{}\<close>\<close>
  now :: int                                \<comment> \<open>time value of \<^verbatim>\<open>new Date()\<close>\<close>

definition String_js :: "js_env \<Rightarrow> jsval \<Rightarrow> string" where
  "String_js env v = (case v of JStr s \<Rightarrow> s | _ \<Rightarrow> to_string env v)"

definition Number_js :: "js_env \<Rightarrow> jsval \<Rightarrow> jsnum" where
  "Number_js env v = (case v of JNum n \<Rightarrow> n | _ \<Rightarrow> to_number env v)"

definition isNaN :: "jsnum \<Rightarrow> bool" where
  "isNaN n = (n = NaN)"

definition Math_floor :: "jsnum \<Rightarrow> jsnum" where
  "Math_floor n = (case n of Fin r \<Rightarrow> Fin (of_int \<lfloor>r\<rfloor>) | _ \<Rightarrow> n)"

text \<open>\<^verbatim>\<open>toLowerCase\<close> on the ASCII letters (a string is a list of bytes here).\<close>

definition lower_char :: "char \<Rightarrow> char" where
  "lower_char c =
     (case map_of (zip ''ABCDEFGHIJKLMNOPQRSTUVWXYZ'' ''abcdefghijklmnopqrstuvwxyz'') c of
        None \<Rightarrow> c
      | Some l \<Rightarrow> l)"

definition toLowerCase :: "string \<Rightarrow> string" where
  "toLowerCase s = map lower_char s"

text \<open>Strict equality \<^verbatim>\<open>===\<close>: NaN is not equal to itself.\<close>

definition strict_eq :: "jsval \<Rightarrow> jsval \<Rightarrow> bool" where
  "strict_eq a b = (a = b \<and> a \<noteq> JNum NaN)"

section \<open>Structural definitions (types/index.ts)\<close>

record ColumnDefinition =
  col_name :: string
  col_type :: string
  col_nullable :: bool
  col_defaultValue :: jsval      \<comment> \<open>\<open>JUndefined\<close> when the optional field is absent\<close>
  col_constraints :: "string list option"

record TableDefinition =
  tbl_name :: string
  tbl_columns :: "ColumnDefinition list"
  tbl_primaryKey :: "string option"

record SchemaDefinition =
  sch_version :: string
  sch_tables :: "TableDefinition list"

text \<open>
  A row is an ordinary object, as the drivers and \<^verbatim>\<open>transformData\<close> build them: its own
  properties in insertion order, and \<^verbatim>\<open>Object.prototype\<close> as its prototype.  The members
  every such object inherits are the eleven functions below and the accessor \<^verbatim>\<open>__proto__\<close>,
  whose getter returns the prototype.
\<close>

type_synonym row = "(string \<times> jsval) list"

definition Object_prototype :: "(string \<times> jsval) list" where
  "Object_prototype =
     [(''constructor'', JFun ''Object''),
      (''__defineGetter__'', JFun ''__defineGetter__''),
      (''__defineSetter__'', JFun ''__defineSetter__''),
      (''hasOwnProperty'', JFun ''hasOwnProperty''),
      (''__lookupGetter__'', JFun ''__lookupGetter__''),
      (''__lookupSetter__'', JFun ''__lookupSetter__''),
      (''isPrototypeOf'', JFun ''isPrototypeOf''),
      (''propertyIsEnumerable'', JFun ''propertyIsEnumerable''),
      (''toString'', JFun ''toString''),
      (''valueOf'', JFun ''valueOf''),
      (''toLocaleString'', JFun ''toLocaleString''),
      (''__proto__'', JObj 0)]"

text \<open>
  \<^verbatim>\<open>row[k]\<close> reads the own property \<open>k\<close>, else the inherited member of that name, else
  gives \<open>undefined\<close>.  \<^verbatim>\<open>row[k] = v\<close> keeps the place of an existing own key and appends a
  new one, except for \<^verbatim>\<open>__proto__\<close>: that assignment reaches the inherited setter and
  creates no property.  \<^verbatim>\<open>Object.keys\<close> lists the own keys.
\<close>

definition get_prop :: "row \<Rightarrow> string \<Rightarrow> jsval" where
  "get_prop r k =
     (case map_of r k of
        Some v \<Rightarrow> v
      | None \<Rightarrow> (case map_of Object_prototype k of Some inherited \<Rightarrow> inherited | None \<Rightarrow> JUndefined))"

definition set_prop :: "row \<Rightarrow> string \<Rightarrow> jsval \<Rightarrow> row" where
  "set_prop r k v = (if k = ''__proto__'' then r else AList.update k v r)"

definition Object_keys :: "row \<Rightarrow> string list" where
  "Object_keys r = map fst r"

section \<open>DataMigrator: value transformation\<close>

text \<open>
  The pattern of \<^verbatim>\<open>transformValue\<close>,
  \<^verbatim>\<open>/^[0-9a-f]{8}-[0-9a-f]{4}-[1-5][0-9a-f]{3}-[89ab][0-9a-f]{3}-[0-9a-f]{12}$/i\<close>:
  36 characters, each position with its own class.
\<close>

definition is_hex :: "char \<Rightarrow> bool" where
  "is_hex c = (c \<in> set ''0123456789abcdefABCDEF'')"

definition uuid_char_ok :: "nat \<Rightarrow> char \<Rightarrow> bool" where
  "uuid_char_ok i c =
     (if i = 8 \<or> i = 13 \<or> i = 18 \<or> i = 23 then c = CHR ''-''
      else if i = 14 then c \<in> set ''12345''
      else if i = 19 then c \<in> set ''89abAB''
      else is_hex c)"

definition uuidRegex_test :: "string \<Rightarrow> bool" where
  "uuidRegex_test s = (length s = 36 \<and> list_all (\<lambda>(i, c). uuid_char_ok i c) (enumerate 0 s))"

definition transformValue :: "js_env \<Rightarrow> jsval \<Rightarrow> string \<Rightarrow> jsval" where
  "transformValue env v targetType =
     (if v = JNull \<or> v = JUndefined then v
      else let t = toLowerCase targetType in
        if t = ''string'' \<or> t = ''varchar'' \<or> t = ''text'' then JStr (String_js env v)
        else if t = ''integer'' \<or> t = ''int'' \<or> t = ''bigint'' then
          (let num = Number_js env v in
           if isNaN num then JNum (Fin 0) else JNum (Math_floor num))
        else if t = ''decimal'' \<or> t = ''float'' \<or> t = ''double'' then
          (let dec = Number_js env v in
           if isNaN dec then JNum (Fin 0) else JNum dec)
        else if t = ''boolean'' \<or> t = ''bool'' then
          (case v of
             JBool b \<Rightarrow> JBool b
           | JStr s \<Rightarrow> JBool (toLowerCase s = ''true'' \<or> s = ''1'')
           | JNum n \<Rightarrow> JBool (n \<noteq> Fin 0)
           | _ \<Rightarrow> JBool True)
        else if t = ''date'' \<or> t = ''datetime'' \<or> t = ''timestamp'' then
          (case v of
             JDate d \<Rightarrow> JDate d
           | _ \<Rightarrow> (case new_Date env v of None \<Rightarrow> JDate (now env) | Some d \<Rightarrow> JDate d))
        else if t = ''json'' \<or> t = ''jsonb'' then
          (case v of
             JObj a \<Rightarrow> JObj a
           | JDate d \<Rightarrow> JDate d
           | _ \<Rightarrow> (case JSON_parse env (String_js env v) of
                     None \<Rightarrow> JObj (fresh_obj env)
                   | Some p \<Rightarrow> p))
        else if t = ''uuid'' then
          (let strValue = String_js env v in
           if uuidRegex_test strValue then JStr strValue else JNull)
        else v)"

text \<open>
  \<^verbatim>\<open>transformData\<close>: every row is mapped to a new object that gets one property per
  column of the table definition, in the definition's order.
\<close>

definition transformCell :: "js_env \<Rightarrow> row \<Rightarrow> ColumnDefinition \<Rightarrow> jsval" where
  "transformCell env r c =
     (let v = get_prop r (col_name c) in
      if v \<noteq> JNull \<and> v \<noteq> JUndefined then transformValue env v (col_type c) else v)"

definition transformRow :: "js_env \<Rightarrow> TableDefinition \<Rightarrow> row \<Rightarrow> row" where
  "transformRow env t r =
     foldl (\<lambda>acc c. set_prop acc (col_name c) (transformCell env r c)) [] (tbl_columns t)"

definition transformData :: "js_env \<Rightarrow> row list \<Rightarrow> TableDefinition \<Rightarrow> row list" where
  "transformData env data t = map (transformRow env t) data"

section \<open>Storage adapters\<close>

text \<open>
  The components reach a database only through the \<^verbatim>\<open>DatabaseAdapter\<close> interface.  A
  database is modelled by what the two relational adapters make observable: the backend
  behind the adapter, named tables holding rows, the columns each table was declared with
  (by \<^verbatim>\<open>createTable\<close>: a column is \<^verbatim>\<open>NOT NULL\<close> unless nullable, and has a default when
  one is defined), the table's further checks on an inserted row (types, lengths, keys),
  the snapshot taken by \<^verbatim>\<open>BEGIN\<close> (restored by \<^verbatim>\<open>ROLLBACK\<close>, discarded by \<^verbatim>\<open>COMMIT\<close>),
  and the maintenance sentinel.  A statement that names a missing table or a missing column
  fails, and so does a rename onto an existing name; the adapter rethrows that as an
  \<^verbatim>\<open>Error\<close>.
\<close>

datatype error =
    QueryFailed string                 \<comment> \<open>an adapter statement failed; the table it named\<close>
  | ValidationFailed string nat nat    \<comment> \<open>\<^verbatim>\<open>Data validation failed for T: source=a, shadow=b\<close>\<close>
  | ListenerThrew string               \<comment> \<open>a listener of the named event threw\<close>
  | JobNotFound string                 \<comment> \<open>\<^verbatim>\<open>Migration job ID not found\<close>\<close>
  | CannotPause string                 \<comment> \<open>\<^verbatim>\<open>Cannot pause job ID\<close>\<close>
  | CannotResume string                \<comment> \<open>\<^verbatim>\<open>Cannot resume job ID\<close>\<close>
  | RollbackNotSupported string        \<comment> \<open>\<^verbatim>\<open>Rollback not supported for job ID\<close>\<close>
  | PhaseFailed string                 \<comment> \<open>an error raised by a migration phase, with its message\<close>

datatype backend = PostgreSQL | MySQL

record db =
  db_kind :: backend
  db_tables :: "(string \<times> row list) list"
  db_columns :: "(string \<times> ColumnDefinition list) list"
  db_check :: "string \<Rightarrow> row \<Rightarrow> bool"
  db_saved :: "((string \<times> row list) list \<times> (string \<times> ColumnDefinition list) list) option"
  db_maintenance :: bool

definition columns_of :: "db \<Rightarrow> string \<Rightarrow> ColumnDefinition list" where
  "columns_of d t = (case map_of (db_columns d) t of None \<Rightarrow> [] | Some cs \<Rightarrow> cs)"

definition has_column :: "db \<Rightarrow> string \<Rightarrow> string \<Rightarrow> bool" where
  "has_column d t c = (c \<in> set (map col_name (columns_of d t)))"

text \<open>
  A statement with parameters marks them \<^verbatim>\<open>?\<close> or \<^verbatim>\<open>$1\<close>, \<^verbatim>\<open>$2\<close>.  Each driver knows one of
  the two forms: \<^verbatim>\<open>pg\<close> the numbered one, \<^verbatim>\<open>mysql2\<close> the question mark.  A statement written
  in the other form does not parse, and the query fails.
\<close>

datatype placeholder = Question | Dollar

definition parses :: "backend \<Rightarrow> placeholder \<Rightarrow> bool" where
  "parses k p = (case k of PostgreSQL \<Rightarrow> p = Dollar | MySQL \<Rightarrow> p = Question)"

text \<open>
  \<^verbatim>\<open>selectData\<close> is \<^verbatim>\<open>SELECT * FROM t LIMIT n OFFSET k\<close>, each adapter writing the
  parameters in its driver's form; \<open>select_limit\<close> is the literal statement
  \<^verbatim>\<open>SELECT * FROM t LIMIT n\<close>; \<^verbatim>\<open>getCount\<close> is \<^verbatim>\<open>SELECT COUNT(*)\<close>.
\<close>

definition selectData :: "db \<Rightarrow> string \<Rightarrow> nat \<Rightarrow> nat \<Rightarrow> error + row list" where
  "selectData d t n_limit n_offset =
     (case map_of (db_tables d) t of
        None \<Rightarrow> Inl (QueryFailed t)
      | Some rows \<Rightarrow> Inr (take n_limit (drop n_offset rows)))"

definition select_limit :: "db \<Rightarrow> string \<Rightarrow> nat \<Rightarrow> error + row list" where
  "select_limit d t n_limit =
     (case map_of (db_tables d) t of
        None \<Rightarrow> Inl (QueryFailed t)
      | Some rows \<Rightarrow> Inr (take n_limit rows))"

text \<open>
  \<^verbatim>\<open>INSERT INTO t (columns) VALUES (values)\<close>, one row.  The backend refuses it when the
  column list is empty (PostgreSQL), when it names a column the table does not have, when a
  value is \<open>undefined\<close> (\<^verbatim>\<open>mysql2\<close> does not bind it; \<^verbatim>\<open>pg\<close> sends \<open>NULL\<close>), when a
  \<^verbatim>\<open>NOT NULL\<close> column would hold \<open>NULL\<close> (a listed column by its value, an unlisted one by
  its default; MySQL in its default strict mode), or when the table's further checks refuse
  the row.  A row is stored as the columns listed with the values bound; a stored
  \<open>undefined\<close> stands for \<open>NULL\<close>.
\<close>

definition is_null :: "jsval \<Rightarrow> bool" where
  "is_null v = (v = JNull \<or> v = JUndefined)"

definition insert_ok :: "db \<Rightarrow> string \<Rightarrow> string list \<Rightarrow> jsval list \<Rightarrow> bool" where
  "insert_ok d t columns vals =
     ((if columns = [] then db_kind d = MySQL else True) \<and>
      list_all (has_column d t) columns \<and>
      (if db_kind d = MySQL then list_all (\<lambda>v. v \<noteq> JUndefined) vals else True) \<and>
      list_all (\<lambda>c. if col_nullable c then True
                     else \<not> is_null (case map_of (zip columns vals) (col_name c) of
                                        None \<Rightarrow> col_defaultValue c
                                      | Some v \<Rightarrow> v))
               (columns_of d t) \<and>
      db_check d t (zip columns vals))"

definition insert_row :: "db \<Rightarrow> string \<Rightarrow> string list \<Rightarrow> jsval list \<Rightarrow> error + db" where
  "insert_row d t columns vals =
     (case map_of (db_tables d) t of
        None \<Rightarrow> Inl (QueryFailed t)
      | Some rows \<Rightarrow>
          if insert_ok d t columns vals
          then Inr (d\<lparr>db_tables := AList.update t (rows @ [zip columns vals]) (db_tables d)\<rparr>)
          else Inl (QueryFailed t))"

text \<open>
  \<^verbatim>\<open>insertData\<close> returns at once for an empty batch.  Otherwise it takes the column list
  from the keys of the first row, reads those properties of every row, and issues one
  \<^verbatim>\<open>INSERT\<close> per row, in order, opening no transaction: when a statement fails, the rows
  before it stay inserted.  A failure is the error together with the database as the
  failed call left it.
\<close>

fun insertRows :: "db \<Rightarrow> string \<Rightarrow> string list \<Rightarrow> jsval list list \<Rightarrow> (error \<times> db) + db" where
  "insertRows d t columns [] = Inr d"
| "insertRows d t columns (vals # rest) =
     (case insert_row d t columns vals of
        Inl e \<Rightarrow> Inl (e, d)
      | Inr d' \<Rightarrow> insertRows d' t columns rest)"

definition insertData :: "db \<Rightarrow> string \<Rightarrow> row list \<Rightarrow> (error \<times> db) + db" where
  "insertData d t data =
     (if length data = 0 then Inr d
      else let columns = Object_keys (hd data);
               vals = map (\<lambda>row. map (get_prop row) columns) data
           in insertRows d t columns vals)"

text \<open>The target takes a row: the \<^verbatim>\<open>INSERT\<close> that lists the row's keys is not refused.\<close>

definition accepts :: "db \<Rightarrow> string \<Rightarrow> row \<Rightarrow> bool" where
  "accepts d t r = insert_ok d t (Object_keys r) (map (get_prop r) (Object_keys r))"

definition getCount :: "db \<Rightarrow> string \<Rightarrow> error + nat" where
  "getCount d t =
     (case map_of (db_tables d) t of
        None \<Rightarrow> Inl (QueryFailed t)
      | Some rows \<Rightarrow> Inr (length rows))"

section \<open>DataMigrator: full migration\<close>

text \<open>
  The \<^verbatim>\<open>while (hasMoreData)\<close> loop of \<^verbatim>\<open>migrateTableData\<close>.  Its state is the offset, the
  running total and the target database; the model also records the size of every page
  that \<^verbatim>\<open>selectData\<close> returned, in order.  The source is not written to while the loop
  runs.  When a call throws, the result is the error and the target as it is then.
\<close>

function migrateLoop ::
  "js_env \<Rightarrow> nat \<Rightarrow> db \<Rightarrow> TableDefinition \<Rightarrow> nat \<Rightarrow> nat list \<Rightarrow> nat \<Rightarrow> db
     \<Rightarrow> (error \<times> db) + (nat list \<times> nat \<times> db)" where
  "migrateLoop env batchSize src t offset pages totalMigrated tgt =
     (case selectData src (tbl_name t) batchSize offset of
        Inl e \<Rightarrow> Inl (e, tgt)
      | Inr data \<Rightarrow>
          if length data = 0 then Inr (pages @ [0], totalMigrated, tgt)
          else
            (case insertData tgt (tbl_name t) (transformData env data t) of
               Inl failure \<Rightarrow> Inl failure
             | Inr tgt' \<Rightarrow>
                 if length data < batchSize
                 then Inr (pages @ [length data], totalMigrated + length data, tgt')
                 else migrateLoop env batchSize src t (offset + batchSize)
                        (pages @ [length data]) (totalMigrated + length data) tgt'))"
  by pat_completeness auto
termination
proof (relation "measure (\<lambda>(env, batchSize, src, t, offset, pages, totalMigrated, tgt).
         (case map_of (db_tables src) (tbl_name t) of
            None \<Rightarrow> 0 | Some rows \<Rightarrow> length rows - offset))")
  show "wf (measure (\<lambda>(env, batchSize, src, t, offset, pages, totalMigrated, tgt).
         (case map_of (db_tables src) (tbl_name t) of
            None \<Rightarrow> 0 | Some rows \<Rightarrow> length rows - offset)))"
    by simp
next
  fix env :: js_env and batchSize :: nat and src :: db and t :: TableDefinition
    and offset :: nat and pages :: "nat list" and totalMigrated :: nat and tgt :: db
    and data :: "row list" and tgt' :: db
  assume sel: "selectData src (tbl_name t) batchSize offset = Inr data"
    and ne: "length data \<noteq> 0"
    and full: "\<not> length data < batchSize"
  from sel obtain rows where rows: "map_of (db_tables src) (tbl_name t) = Some rows"
    and data: "data = take batchSize (drop offset rows)"
    by (auto simp: selectData_def split: option.splits)
  from ne data have "offset < length rows" by auto
  moreover from ne data have "0 < batchSize" by (cases batchSize) auto
  ultimately show "((env, batchSize, src, t, offset + batchSize, pages @ [length data],
                     totalMigrated + length data, tgt'),
                    (env, batchSize, src, t, offset, pages, totalMigrated, tgt))
                   \<in> measure (\<lambda>(env, batchSize, src, t, offset, pages, totalMigrated, tgt).
                        (case map_of (db_tables src) (tbl_name t) of
                           None \<Rightarrow> 0 | Some rows \<Rightarrow> length rows - offset))"
    using rows by simp
qed

definition migrateTableData ::
  "js_env \<Rightarrow> nat \<Rightarrow> db \<Rightarrow> db \<Rightarrow> TableDefinition \<Rightarrow> (error \<times> db) + (nat list \<times> nat \<times> db)" where
  "migrateTableData env batchSize src tgt t = migrateLoop env batchSize src t 0 [] 0 tgt"

text \<open>
  \<^verbatim>\<open>migrateData\<close>: the tables of the schema one after the other.  The result lists the
  page sizes fetched per table and the values handed to the progress callback.
\<close>

fun migrateTables ::
  "js_env \<Rightarrow> nat \<Rightarrow> db \<Rightarrow> nat \<Rightarrow> TableDefinition list \<Rightarrow> nat \<Rightarrow> nat list list \<Rightarrow> rat list \<Rightarrow> db
     \<Rightarrow> (error \<times> db) + (nat list list \<times> rat list \<times> db)" where
  "migrateTables env batchSize src totalTables [] completedTables fetched progress tgt =
     Inr (fetched, progress, tgt)"
| "migrateTables env batchSize src totalTables (t # ts) completedTables fetched progress tgt =
     (case migrateTableData env batchSize src tgt t of
        Inl failure \<Rightarrow> Inl failure
      | Inr (pages, migrated, tgt') \<Rightarrow>
          migrateTables env batchSize src totalTables ts (completedTables + 1)
            (fetched @ [pages])
            (progress @ [of_nat (completedTables + 1) / of_nat totalTables * 100]) tgt')"

definition migrateData ::
  "js_env \<Rightarrow> nat \<Rightarrow> db \<Rightarrow> db \<Rightarrow> SchemaDefinition \<Rightarrow> (error \<times> db) + (nat list list \<times> rat list \<times> db)" where
  "migrateData env batchSize src tgt schema =
     migrateTables env batchSize src (length (sch_tables schema)) (sch_tables schema) 0 [] [] tgt"

text \<open>\<^verbatim>\<open>setBatchSize\<close> clamps into the range from 1 to 10000.\<close>

definition setBatchSize :: "int \<Rightarrow> nat" where
  "setBatchSize sz = nat (max 1 (min sz 10000))"

text \<open>Reading a table of a database: its rows (none when it is missing), and whether it exists.\<close>

definition rows_of :: "db \<Rightarrow> string \<Rightarrow> row list" where
  "rows_of d n = (case map_of (db_tables d) n of None \<Rightarrow> [] | Some rs \<Rightarrow> rs)"

definition has_table :: "db \<Rightarrow> string \<Rightarrow> bool" where
  "has_table d n = (map_of (db_tables d) n \<noteq> None)"

section \<open>DataMigrator: incremental migration\<close>

text \<open>
  The timestamp columns, as the backend reads them.  A stored cell that does not hold a
  \<^verbatim>\<open>Date\<close> (also a missing one) counts as SQL \<open>NULL\<close>: \<open>MAX\<close> skips it, a comparison with
  it is not true, and \<open>ORDER BY\<close> puts it last on PostgreSQL and first on MySQL.  A time
  value is stored and read back exactly.
\<close>

definition ts_of :: "row \<Rightarrow> string \<Rightarrow> int option" where
  "ts_of r c = (case map_of r c of Some (JDate d) \<Rightarrow> Some d | _ \<Rightarrow> None)"

fun max_opt :: "int option \<Rightarrow> int option \<Rightarrow> int option" where
  "max_opt None y = y"
| "max_opt (Some a) None = Some a"
| "max_opt (Some a) (Some b) = Some (max a b)"

definition sql_max :: "row list \<Rightarrow> string \<Rightarrow> int option" where
  "sql_max rows c = foldr (\<lambda>r acc. max_opt (ts_of r c) acc) rows None"

definition newer_than :: "int \<Rightarrow> row \<Rightarrow> bool" where
  "newer_than w r =
     ((case ts_of r ''updated_at'' of None \<Rightarrow> False | Some u \<Rightarrow> w < u) \<or>
      (case ts_of r ''created_at'' of None \<Rightarrow> False | Some c \<Rightarrow> w < c))"

definition null_rank :: "backend \<Rightarrow> int option \<Rightarrow> nat \<times> int" where
  "null_rank k x =
     (case k of
        PostgreSQL \<Rightarrow> (case x of None \<Rightarrow> (1, 0) | Some d \<Rightarrow> (0, d))
      | MySQL \<Rightarrow> (case x of None \<Rightarrow> (0, 0) | Some d \<Rightarrow> (1, d)))"

definition order_key :: "backend \<Rightarrow> row \<Rightarrow> (nat \<times> int) \<times> (nat \<times> int)" where
  "order_key k r = (null_rank k (ts_of r ''updated_at''), null_rank k (ts_of r ''created_at''))"

text \<open>
  \<^verbatim>\<open>SELECT * FROM t WHERE updated_at > w OR created_at > w ORDER BY updated_at, created_at\<close>,
  with \<^verbatim>\<open>LIMIT n\<close> when a limit is given.  The watermark is a parameter of the statement,
  written in the form \<open>p\<close>.  The query fails when the backend does not parse that form, when
  the table is missing, and when the table lacks one of the two columns.  Rows with equal
  timestamps come in the order of the table (the backend leaves their order open).
\<close>

definition select_since :: "db \<Rightarrow> placeholder \<Rightarrow> string \<Rightarrow> int \<Rightarrow> nat option \<Rightarrow> error + row list" where
  "select_since d p t w n_limit =
     (if \<not> parses (db_kind d) p then Inl (QueryFailed t)
      else case map_of (db_tables d) t of
        None \<Rightarrow> Inl (QueryFailed t)
      | Some rows \<Rightarrow>
          if has_column d t ''updated_at'' \<and> has_column d t ''created_at''
          then (let hits = sort_key (order_key (db_kind d)) (filter (newer_than w) rows) in
                Inr (case n_limit of None \<Rightarrow> hits | Some n \<Rightarrow> take n hits))
          else Inl (QueryFailed t))"



text \<open>
  \<^verbatim>\<open>getDataSinceWatermark\<close> writes the watermark query with \<^verbatim>\<open>?\<close> for both parameters, on
  every adapter.  When the query fails it falls back to the first \<open>batchSize\<close> rows of the
  table, unfiltered, and to no rows when that fails too.
\<close>

definition getDataSinceWatermark :: "nat \<Rightarrow> db \<Rightarrow> string \<Rightarrow> int \<Rightarrow> row list" where
  "getDataSinceWatermark batchSize d t watermark =
     (case select_since d Question t watermark (Some batchSize) of
        Inr rows \<Rightarrow> rows
      | Inl e \<Rightarrow>
          (case select_limit d t batchSize of
             Inr rows \<Rightarrow> rows
           | Inl fallbackError \<Rightarrow> []))"




section \<open>DataMigrator: integrity validation\<close>

record mismatch =
  mm_table :: string
  mm_sourceCount :: nat
  mm_targetCount :: nat

record integrity =
  isValid :: bool
  mismatches :: "mismatch list"

fun countMismatches :: "db \<Rightarrow> db \<Rightarrow> TableDefinition list \<Rightarrow> mismatch list \<Rightarrow> error + mismatch list" where
  "countMismatches src tgt [] acc = Inr acc"
| "countMismatches src tgt (t # ts) acc =
     (case getCount src (tbl_name t) of
        Inl e \<Rightarrow> Inl e
      | Inr sourceCount \<Rightarrow>
          (case getCount tgt (tbl_name t) of
             Inl e \<Rightarrow> Inl e
           | Inr targetCount \<Rightarrow>
               countMismatches src tgt ts
                 (if sourceCount \<noteq> targetCount
                  then acc @ [\<lparr>mm_table = tbl_name t, mm_sourceCount = sourceCount,
                               mm_targetCount = targetCount\<rparr>]
                  else acc)))"

definition validateDataIntegrity :: "db \<Rightarrow> db \<Rightarrow> SchemaDefinition \<Rightarrow> error + integrity" where
  "validateDataIntegrity src tgt schema =
     (case countMismatches src tgt (sch_tables schema) [] of
        Inl e \<Rightarrow> Inl e
      | Inr ms \<Rightarrow> Inr \<lparr>isValid = (length ms = 0), mismatches = ms\<rparr>)"

section \<open>SchemaEvolution: the column diff\<close>

text \<open>
  \<^verbatim>\<open>new Map(entries)\<close>: a later entry with a key already present replaces the value and keeps
  the key's place in the iteration order.
\<close>

definition js_Map :: "('k \<times> 'v) list \<Rightarrow> ('k \<times> 'v) list" where
  "js_Map entries = foldl (\<lambda>m (k, v). AList.update k v m) [] entries"

definition columnsDiffer :: "ColumnDefinition \<Rightarrow> ColumnDefinition \<Rightarrow> bool" where
  "columnsDiffer current target =
     (col_type current \<noteq> col_type target \<or>
      col_nullable current \<noteq> col_nullable target \<or>
      \<not> strict_eq (col_defaultValue current) (col_defaultValue target))"

record TableChanges =
  addColumns :: "ColumnDefinition list"
  modifyColumns :: "ColumnDefinition list"
  dropColumns :: "ColumnDefinition list"

definition columnMap :: "TableDefinition \<Rightarrow> (string \<times> ColumnDefinition) list" where
  "columnMap t = js_Map (map (\<lambda>col. (col_name col, col)) (tbl_columns t))"

definition calculateTableChanges :: "TableDefinition \<Rightarrow> TableDefinition \<Rightarrow> TableChanges" where
  "calculateTableChanges current target =
     (let currentColumns = columnMap current;
          targetColumns = columnMap target;
          ch0 = \<lparr>addColumns = [], modifyColumns = [], dropColumns = []\<rparr>;
          ch1 = foldl (\<lambda>ch (name, targetCol).
                   case map_of currentColumns name of
                     None \<Rightarrow> ch\<lparr>addColumns := addColumns ch @ [targetCol]\<rparr>
                   | Some currentCol \<Rightarrow>
                       if columnsDiffer currentCol targetCol
                       then ch\<lparr>modifyColumns := modifyColumns ch @ [targetCol]\<rparr>
                       else ch) ch0 targetColumns
      in foldl (\<lambda>ch (name, currentCol).
                   case map_of targetColumns name of
                     None \<Rightarrow> ch\<lparr>dropColumns := dropColumns ch @ [currentCol]\<rparr>
                   | Some targetCol \<Rightarrow> ch) ch1 currentColumns)"

text \<open>
  What the statements of \<^verbatim>\<open>addColumns\<close>, \<^verbatim>\<open>modifyColumns\<close> and \<^verbatim>\<open>dropColumns\<close> do to the
  columns of a table, in the order \<^verbatim>\<open>evolveExistingTable\<close> issues them: \<^verbatim>\<open>ADD COLUMN\<close>
  appends; \<^verbatim>\<open>ALTER COLUMN ... TYPE\<close> sets the type, \<^verbatim>\<open>SET NOT NULL\<close> is issued only for
  a column that is not nullable and \<^verbatim>\<open>SET DEFAULT\<close> only for a default that is defined;
  \<^verbatim>\<open>DROP COLUMN\<close> removes.
\<close>

definition alterColumn :: "ColumnDefinition \<Rightarrow> ColumnDefinition \<Rightarrow> ColumnDefinition" where
  "alterColumn column c =
     (if col_name c = col_name column
      then c\<lparr>col_type := col_type column,
             col_nullable := (if \<not> col_nullable column then False else col_nullable c),
             col_defaultValue := (if col_defaultValue column \<noteq> JUndefined
                                  then col_defaultValue column else col_defaultValue c)\<rparr>
      else c)"

definition applyChanges :: "ColumnDefinition list \<Rightarrow> TableChanges \<Rightarrow> ColumnDefinition list" where
  "applyChanges cols ch =
     (let added = cols @ addColumns ch;
          modified = foldl (\<lambda>cs column. map (alterColumn column) cs) added (modifyColumns ch)
      in foldl (\<lambda>cs column. filter (\<lambda>c. col_name c \<noteq> col_name column) cs) modified (dropColumns ch))"

section \<open>MigrationEngine: the job state machine\<close>

datatype status = Pending | Running | Completed | Failed | Paused

datatype level = LInfo | LWarn | LError | LDebug

record MigrationLog =
  log_timestamp :: int
  log_level :: level
  log_message :: string

record DatabaseConfig =
  cfg_type :: string
  cfg_host :: string
  cfg_port :: nat
  cfg_database :: string

record MigrationStrategy =
  strat_name :: string
  strat_downtime :: bool
  strat_rollbackSupported :: bool

record MigrationJob =
  job_id :: string
  job_status :: status
  job_sourceDatabase :: DatabaseConfig
  job_targetDatabase :: DatabaseConfig
  job_strategy :: MigrationStrategy
  job_schema :: SchemaDefinition
  job_progress :: rat
  job_startTime :: "int option"
  job_endTime :: "int option"
  job_error :: "string option"
  job_logs :: "MigrationLog list"

text \<open>
  The engine holds the jobs by id.  The model adds what its callers observe: the lifecycle
  events emitted, each with the job as it was at that moment, and the number of times the
  clock has been read (the \<open>k\<close>-th \<^verbatim>\<open>new Date()\<close> returns \<open>clock k\<close>).
\<close>

record engine =
  jobs :: "(string \<times> MigrationJob) list"
  events :: "(string \<times> MigrationJob) list"
  ticks :: nat

text \<open>
  The phases of a migration are the other components, driven through live adapters.  For
  the state machine only their outcome matters: \<open>None\<close> when the awaited call returns,
  \<open>Some message\<close> when it throws an \<^verbatim>\<open>Error\<close> with that message; the two data phases also
  report progress percentages to their callback before they end.
\<close>

record phases =
  ph_getAdapter :: "string option"
  ph_setupShadowWrites :: "string option"
  ph_migrateSchema :: "string option"
  ph_migrateData :: "rat list \<times> string option"
  ph_migrateDataIncremental :: "rat list \<times> string option"
  ph_cutover :: "string option"
  ph_validateMigration :: "string option"
  ph_rollbackSchema :: "string option"

text \<open>One operation works on one job: the job, the events and the clock readings so far.\<close>

record run =
  r_job :: MigrationJob
  r_events :: "(string \<times> MigrationJob) list"
  r_ticks :: nat

definition load :: "engine \<Rightarrow> MigrationJob \<Rightarrow> run" where
  "load eng job = \<lparr>r_job = job, r_events = events eng, r_ticks = ticks eng\<rparr>"

definition store :: "engine \<Rightarrow> string \<Rightarrow> run \<Rightarrow> engine" where
  "store eng jobId r =
     eng\<lparr>jobs := AList.update jobId (r_job r) (jobs eng),
         events := r_events r, ticks := r_ticks r\<rparr>"

definition push_log :: "(nat \<Rightarrow> int) \<Rightarrow> level \<Rightarrow> string \<Rightarrow> run \<Rightarrow> run" where
  "push_log clock lv msg r =
     r\<lparr>r_job := (r_job r)\<lparr>job_logs := job_logs (r_job r) @
            [\<lparr>log_timestamp = clock (r_ticks r), log_level = lv, log_message = msg\<rparr>]\<rparr>,
       r_ticks := r_ticks r + 1\<rparr>"

definition emit :: "string \<Rightarrow> run \<Rightarrow> run" where
  "emit name r = r\<lparr>r_events := r_events r @ [(name, r_job r)]\<rparr>"

definition set_status :: "status \<Rightarrow> run \<Rightarrow> run" where
  "set_status s r = r\<lparr>r_job := (r_job r)\<lparr>job_status := s\<rparr>\<rparr>"

definition set_progress :: "rat \<Rightarrow> run \<Rightarrow> run" where
  "set_progress p r = r\<lparr>r_job := (r_job r)\<lparr>job_progress := p\<rparr>\<rparr>"

definition set_startTime :: "(nat \<Rightarrow> int) \<Rightarrow> run \<Rightarrow> run" where
  "set_startTime clock r =
     r\<lparr>r_job := (r_job r)\<lparr>job_startTime := Some (clock (r_ticks r))\<rparr>, r_ticks := r_ticks r + 1\<rparr>"

definition set_endTime :: "(nat \<Rightarrow> int) \<Rightarrow> run \<Rightarrow> run" where
  "set_endTime clock r =
     r\<lparr>r_job := (r_job r)\<lparr>job_endTime := Some (clock (r_ticks r))\<rparr>, r_ticks := r_ticks r + 1\<rparr>"

definition set_error :: "string \<Rightarrow> run \<Rightarrow> run" where
  "set_error msg r = r\<lparr>r_job := (r_job r)\<lparr>job_error := Some msg\<rparr>\<rparr>"

definition createMigration ::
  "engine \<Rightarrow> string \<Rightarrow> DatabaseConfig \<Rightarrow> DatabaseConfig \<Rightarrow> SchemaDefinition \<Rightarrow> MigrationStrategy
     \<Rightarrow> MigrationJob \<times> engine" where
  "createMigration eng jobId sourceConfig targetConfig schema strategy =
     (let job = \<lparr>job_id = jobId, job_status = Pending, job_sourceDatabase = sourceConfig,
                 job_targetDatabase = targetConfig, job_strategy = strategy, job_schema = schema,
                 job_progress = 0, job_startTime = None, job_endTime = None, job_error = None,
                 job_logs = []\<rparr>
      in (job, eng\<lparr>jobs := AList.update jobId job (jobs eng),
                   events := events eng @ [(''jobCreated'', job)]\<rparr>))"

definition executeWithDowntime :: "(nat \<Rightarrow> int) \<Rightarrow> phases \<Rightarrow> run \<Rightarrow> string option \<times> run" where
  "executeWithDowntime clock ph r =
     (let r1 = push_log clock LWarn ''Executing migration with planned downtime'' r in
      case ph_migrateSchema ph of
        Some m \<Rightarrow> (Some m, r1)
      | None \<Rightarrow>
          (let r2 = set_progress 30 r1;
               r3 = foldl (\<lambda>r p. emit ''jobProgress'' (set_progress (30 + p * (6 / 10)) r)) r2
                      (fst (ph_migrateData ph))
           in case snd (ph_migrateData ph) of
                Some m \<Rightarrow> (Some m, r3)
              | None \<Rightarrow>
                  (let r4 = set_progress 90 r3 in
                   case ph_validateMigration ph of
                     Some m \<Rightarrow> (Some m, r4)
                   | None \<Rightarrow> (None, set_progress 100 r4))))"

definition executeZeroDowntime :: "(nat \<Rightarrow> int) \<Rightarrow> phases \<Rightarrow> run \<Rightarrow> string option \<times> run" where
  "executeZeroDowntime clock ph r =
     (let r1 = push_log clock LInfo ''Executing zero-downtime migration'' r in
      case ph_setupShadowWrites ph of
        Some m \<Rightarrow> (Some m, r1)
      | None \<Rightarrow>
          (let r2 = set_progress 10 r1 in
           case ph_migrateSchema ph of
             Some m \<Rightarrow> (Some m, r2)
           | None \<Rightarrow>
               (let r3 = set_progress 30 r2;
                    r4 = foldl (\<lambda>r p. emit ''jobProgress'' (set_progress (30 + p * (5 / 10)) r)) r3
                           (fst (ph_migrateDataIncremental ph))
                in case snd (ph_migrateDataIncremental ph) of
                     Some m \<Rightarrow> (Some m, r4)
                   | None \<Rightarrow>
                       (let r5 = set_progress 80 r4 in
                        case ph_cutover ph of
                          Some m \<Rightarrow> (Some m, r5)
                        | None \<Rightarrow>
                            (let r6 = set_progress 95 r5 in
                             case ph_validateMigration ph of
                               Some m \<Rightarrow> (Some m, r6)
                             | None \<Rightarrow> (None, set_progress 100 r6))))))"

definition executeMigration :: "(nat \<Rightarrow> int) \<Rightarrow> phases \<Rightarrow> run \<Rightarrow> string option \<times> run" where
  "executeMigration clock ph r =
     (case ph_getAdapter ph of
        Some m \<Rightarrow> (Some m, r)
      | None \<Rightarrow>
          (let r1 = push_log clock LInfo ''Initializing database connections'' r in
           case (if strat_downtime (job_strategy (r_job r1))
                 then executeWithDowntime clock ph r1
                 else executeZeroDowntime clock ph r1) of
             (Some m, r2) \<Rightarrow> (Some m, r2)
           | (None, r2) \<Rightarrow>
               (None,
                emit ''jobCompleted''
                  (push_log clock LInfo ''Migration completed successfully''
                    (set_progress 100 (set_endTime clock (set_status Completed r2)))))))"

definition startMigration ::
  "(nat \<Rightarrow> int) \<Rightarrow> phases \<Rightarrow> engine \<Rightarrow> string \<Rightarrow> error option \<times> engine" where
  "startMigration clock ph eng jobId =
     (case map_of (jobs eng) jobId of
        None \<Rightarrow> (Some (JobNotFound jobId), eng)
      | Some job \<Rightarrow>
          (let r = emit ''jobStarted''
                     (push_log clock LInfo
                        (''Starting migration with strategy: '' @ strat_name (job_strategy job))
                        (set_startTime clock (set_status Running (load eng job))))
           in case executeMigration clock ph r of
                (None, r') \<Rightarrow> (None, store eng jobId r')
              | (Some m, r') \<Rightarrow>
                  (Some (PhaseFailed m),
                   store eng jobId
                     (emit ''jobFailed''
                       (push_log clock LError (''Migration failed: '' @ m)
                         (set_error m (set_status Failed r')))))))"

definition pauseMigration :: "(nat \<Rightarrow> int) \<Rightarrow> engine \<Rightarrow> string \<Rightarrow> error option \<times> engine" where
  "pauseMigration clock eng jobId =
     (case map_of (jobs eng) jobId of
        None \<Rightarrow> (Some (CannotPause jobId), eng)
      | Some job \<Rightarrow>
          if job_status job \<noteq> Running then (Some (CannotPause jobId), eng)
          else (None,
                store eng jobId
                  (emit ''jobPaused''
                    (push_log clock LInfo ''Migration paused''
                      (set_status Paused (load eng job))))))"

definition resumeMigration :: "(nat \<Rightarrow> int) \<Rightarrow> engine \<Rightarrow> string \<Rightarrow> error option \<times> engine" where
  "resumeMigration clock eng jobId =
     (case map_of (jobs eng) jobId of
        None \<Rightarrow> (Some (CannotResume jobId), eng)
      | Some job \<Rightarrow>
          if job_status job \<noteq> Paused then (Some (CannotResume jobId), eng)
          else (None,
                store eng jobId
                  (emit ''jobResumed''
                    (push_log clock LInfo ''Migration resumed''
                      (set_status Running (load eng job))))))"

definition rollbackMigration ::
  "(nat \<Rightarrow> int) \<Rightarrow> phases \<Rightarrow> engine \<Rightarrow> string \<Rightarrow> error option \<times> engine" where
  "rollbackMigration clock ph eng jobId =
     (case map_of (jobs eng) jobId of
        None \<Rightarrow> (Some (RollbackNotSupported jobId), eng)
      | Some job \<Rightarrow>
          if \<not> strat_rollbackSupported (job_strategy job)
          then (Some (RollbackNotSupported jobId), eng)
          else
            (let r = push_log clock LWarn ''Starting rollback'' (set_status Running (load eng job)) in
             case (case ph_getAdapter ph of Some m \<Rightarrow> Some m | None \<Rightarrow> ph_rollbackSchema ph) of
               None \<Rightarrow>
                 (None,
                  store eng jobId
                    (emit ''jobRollback''
                      (push_log clock LInfo ''Rollback completed successfully''
                        (set_status Completed r))))
             | Some m \<Rightarrow>
                 (Some (PhaseFailed m),
                  store eng jobId (emit ''jobFailed'' (set_error m (set_status Failed r))))))"

section \<open>ZeroDowntimeManager: cutover\<close>

record ReplicationStream =
  st_sourceTable :: string
  st_shadowTable :: string
  st_lastSyncTime :: int
  st_isActive :: bool

text \<open>
  The manager's maps, the two databases behind the adapters, the names of the events
  emitted, and the number of \<^verbatim>\<open>Date.now()\<close> readings so far (the \<open>k\<close>-th reading is
  \<open>clock k\<close>).  A listener that throws makes \<^verbatim>\<open>emit\<close> throw: \<open>listeners name\<close> says whether
  one is registered for the event.
\<close>

record world =
  shadowTables :: "(string \<times> string) list"
  replicationStreams :: "(string \<times> ReplicationStream) list"
  sourceDb :: db
  targetDb :: db
  emitted :: "string list"
  readings :: nat

fun show_nat :: "nat \<Rightarrow> string" where
  "show_nat n =
     (if n < 10 then [''0123456789'' ! n] else show_nat (n div 10) @ [''0123456789'' ! (n mod 10)])"

definition backupName :: "string \<Rightarrow> nat \<Rightarrow> string" where
  "backupName originalTable t = originalTable @ ''_backup_'' @ show_nat t"

text \<open>
  \<^verbatim>\<open>ALTER TABLE a RENAME TO b\<close>, and the three transaction statements.  On PostgreSQL a
  rename belongs to the open transaction, and \<^verbatim>\<open>BEGIN\<close> inside a transaction changes
  nothing.  On MySQL a rename commits the transaction it is issued in, so that a later
  \<^verbatim>\<open>ROLLBACK\<close> has nothing to restore, and \<^verbatim>\<open>BEGIN\<close> inside a transaction commits it and
  opens a new one.
\<close>

definition renameTable :: "db \<Rightarrow> string \<Rightarrow> string \<Rightarrow> error + db" where
  "renameTable d a b =
     (if has_table d a \<and> \<not> has_table d b
      then Inr (d\<lparr>db_tables := map (\<lambda>(n, rs). if n = a then (b, rs) else (n, rs)) (db_tables d),
                  db_columns := map (\<lambda>(n, cs). if n = a then (b, cs) else (n, cs)) (db_columns d),
                  db_saved := (case db_kind d of PostgreSQL \<Rightarrow> db_saved d | MySQL \<Rightarrow> None)\<rparr>)
      else Inl (QueryFailed a))"

definition beginTransaction :: "db \<Rightarrow> db" where
  "beginTransaction d =
     (case db_saved d of
        None \<Rightarrow> d\<lparr>db_saved := Some (db_tables d, db_columns d)\<rparr>
      | Some s \<Rightarrow>
          (case db_kind d of
             PostgreSQL \<Rightarrow> d
           | MySQL \<Rightarrow> d\<lparr>db_saved := Some (db_tables d, db_columns d)\<rparr>))"

definition commit :: "db \<Rightarrow> db" where
  "commit d = d\<lparr>db_saved := None\<rparr>"

definition rollback :: "db \<Rightarrow> db" where
  "rollback d =
     (case db_saved d of
        None \<Rightarrow> d
      | Some s \<Rightarrow> d\<lparr>db_tables := fst s, db_columns := snd s, db_saved := None\<rparr>)"

definition enableMaintenanceMode :: "db \<Rightarrow> db" where
  "enableMaintenanceMode d = d\<lparr>db_maintenance := True\<rparr>"

definition disableMaintenanceMode :: "db \<Rightarrow> db" where
  "disableMaintenanceMode d = d\<lparr>db_maintenance := False\<rparr>"

definition emit_event :: "(string \<Rightarrow> bool) \<Rightarrow> string \<Rightarrow> world \<Rightarrow> error option \<times> world" where
  "emit_event listeners name w =
     (if listeners name then Some (ListenerThrew name) else None, w\<lparr>emitted := emitted w @ [name]\<rparr>)"

text \<open>
  \<^verbatim>\<open>getChangesSince\<close> writes the same query with \<^verbatim>\<open>$1\<close> and without a limit; when it fails,
  the fallback is \<^verbatim>\<open>SELECT * FROM t LIMIT 1000\<close>.
\<close>

definition getChangesSince :: "db \<Rightarrow> string \<Rightarrow> int \<Rightarrow> error + row list" where
  "getChangesSince d tableName since =
     (case select_since d Dollar tableName since None of
        Inr rows \<Rightarrow> Inr rows
      | Inl e \<Rightarrow> select_limit d tableName 1000)"

fun validateShadowLoop :: "db \<Rightarrow> db \<Rightarrow> (string \<times> string) list \<Rightarrow> error option" where
  "validateShadowLoop src tgt [] = None"
| "validateShadowLoop src tgt ((sourceTable, shadowTable) # rest) =
     (case getCount src sourceTable of
        Inl e \<Rightarrow> Some e
      | Inr sourceCount \<Rightarrow>
          (case getCount tgt shadowTable of
             Inl e \<Rightarrow> Some e
           | Inr shadowCount \<Rightarrow>
               if sourceCount \<noteq> shadowCount
               then Some (ValidationFailed sourceTable sourceCount shadowCount)
               else validateShadowLoop src tgt rest))"

definition validateShadowData :: "world \<Rightarrow> error option" where
  "validateShadowData w = validateShadowLoop (sourceDb w) (targetDb w) (shadowTables w)"

fun finalSyncLoop :: "(string \<times> string) list \<Rightarrow> world \<Rightarrow> error option \<times> world" where
  "finalSyncLoop [] w = (None, w)"
| "finalSyncLoop ((sourceTable, shadowTable) # rest) w =
     (let replicationStream = map_of (replicationStreams w) sourceTable;
          w1 = (case replicationStream of
                  None \<Rightarrow> w
                | Some st \<Rightarrow>
                    w\<lparr>replicationStreams :=
                        AList.update sourceTable (st\<lparr>st_isActive := False\<rparr>) (replicationStreams w)\<rparr>);
          since = (case replicationStream of None \<Rightarrow> 0 | Some st \<Rightarrow> st_lastSyncTime st)
      in case getChangesSince (sourceDb w1) sourceTable since of
           Inl e \<Rightarrow> (Some e, w1)
         | Inr finalChanges \<Rightarrow>
             if length finalChanges > 0
             then (case insertData (targetDb w1) shadowTable finalChanges of
                     Inl (e, tgt') \<Rightarrow> (Some e, w1\<lparr>targetDb := tgt'\<rparr>)
                   | Inr tgt' \<Rightarrow> finalSyncLoop rest (w1\<lparr>targetDb := tgt'\<rparr>))
             else finalSyncLoop rest w1)"

definition finalSync :: "world \<Rightarrow> error option \<times> world" where
  "finalSync w = finalSyncLoop (shadowTables w) w"

fun renameLoop :: "(nat \<Rightarrow> nat) \<Rightarrow> (string \<times> string) list \<Rightarrow> world \<Rightarrow> error option \<times> world" where
  "renameLoop clock [] w = (None, w)"
| "renameLoop clock ((originalTable, shadowTable) # rest) w =
     (let backupTable = backupName originalTable (clock (readings w));
          w1 = w\<lparr>readings := readings w + 1\<rparr>
      in case renameTable (targetDb w1) originalTable backupTable of
           Inl e \<Rightarrow> (Some e, w1)
         | Inr t1 \<Rightarrow>
             (case renameTable t1 shadowTable originalTable of
                Inl e \<Rightarrow> (Some e, w1\<lparr>targetDb := t1\<rparr>)
              | Inr t2 \<Rightarrow> renameLoop clock rest (w1\<lparr>targetDb := t2\<rparr>)))"

definition renameTables :: "(nat \<Rightarrow> nat) \<Rightarrow> world \<Rightarrow> error option \<times> world" where
  "renameTables clock w =
     (let w0 = w\<lparr>targetDb := beginTransaction (targetDb w)\<rparr> in
      case renameLoop clock (shadowTables w0) w0 of
        (None, w1) \<Rightarrow> (None, w1\<lparr>targetDb := commit (targetDb w1)\<rparr>)
      | (Some e, w1) \<Rightarrow> (Some e, w1\<lparr>targetDb := rollback (targetDb w1)\<rparr>))"

fun rollbackLoop :: "(nat \<Rightarrow> nat) \<Rightarrow> (string \<times> string) list \<Rightarrow> world \<Rightarrow> error option \<times> world" where
  "rollbackLoop clock [] w = (None, w)"
| "rollbackLoop clock ((originalTable, shadowTable) # rest) w =
     (let backupTable = backupName originalTable (clock (readings w));
          w1 = w\<lparr>readings := readings w + 1\<rparr>
      in case renameTable (targetDb w1) originalTable shadowTable of
           Inl e \<Rightarrow> (Some e, w1)
         | Inr t1 \<Rightarrow>
             (case renameTable t1 backupTable originalTable of
                Inl e \<Rightarrow> (Some e, w1\<lparr>targetDb := t1\<rparr>)
              | Inr t2 \<Rightarrow> rollbackLoop clock rest (w1\<lparr>targetDb := t2\<rparr>)))"

text \<open>\<^verbatim>\<open>rollbackCutover\<close> catches and logs its own failure: it always returns.\<close>

definition rollbackCutover :: "(nat \<Rightarrow> nat) \<Rightarrow> world \<Rightarrow> world" where
  "rollbackCutover clock w =
     (let w0 = w\<lparr>targetDb := beginTransaction (targetDb w)\<rparr> in
      case rollbackLoop clock (shadowTables w0) w0 of
        (None, w1) \<Rightarrow>
          w1\<lparr>targetDb := commit (targetDb w1), sourceDb := disableMaintenanceMode (sourceDb w1)\<rparr>
      | (Some e, w1) \<Rightarrow> w1\<lparr>targetDb := rollback (targetDb w1)\<rparr>)"

text \<open>The \<^verbatim>\<open>try\<close> block of \<^verbatim>\<open>cutover\<close>, then \<^verbatim>\<open>cutover\<close> with its \<^verbatim>\<open>catch\<close>.\<close>

definition cutoverSteps :: "(string \<Rightarrow> bool) \<Rightarrow> (nat \<Rightarrow> nat) \<Rightarrow> world \<Rightarrow> error option \<times> world" where
  "cutoverSteps listeners clock w =
     (case validateShadowData w of
        Some e \<Rightarrow> (Some e, w)
      | None \<Rightarrow>
          (case finalSync (w\<lparr>sourceDb := enableMaintenanceMode (sourceDb w)\<rparr>) of
             (Some e, w2) \<Rightarrow> (Some e, w2)
           | (None, w2) \<Rightarrow>
               (case renameTables clock w2 of
                  (Some e, w3) \<Rightarrow> (Some e, w3)
                | (None, w3) \<Rightarrow>
                    (case emit_event listeners ''connectionsUpdated'' w3 of
                       (Some e, w4) \<Rightarrow> (Some e, w4)
                     | (None, w4) \<Rightarrow>
                         emit_event listeners ''cutoverCompleted''
                           (w4\<lparr>sourceDb := disableMaintenanceMode (sourceDb w4)\<rparr>)))))"

definition cutover :: "(string \<Rightarrow> bool) \<Rightarrow> (nat \<Rightarrow> nat) \<Rightarrow> world \<Rightarrow> error option \<times> world" where
  "cutover listeners clock w =
     (case emit_event listeners ''cutoverStarted'' w of
        (Some e, w0) \<Rightarrow> (Some e, w0)
      | (None, w0) \<Rightarrow>
          (case cutoverSteps listeners clock w0 of
             (None, w1) \<Rightarrow> (None, w1)
           | (Some error, w1) \<Rightarrow>
               (case emit_event listeners ''cutoverFailed'' (rollbackCutover clock w1) of
                  (Some e, w2) \<Rightarrow> (Some e, w2)
                | (None, w2) \<Rightarrow> (Some error, w2))))"

section \<open>Example data\<close>

text \<open>Concrete inputs on which the theorems below are instantiated.\<close>

definition env0 :: js_env where
  "env0 = \<lparr>to_string = (\<lambda>v. ''''), to_number = (\<lambda>v. NaN), new_Date = (\<lambda>v. None),
            JSON_parse = (\<lambda>s. None), fresh_obj = 1, now = 0\<rparr>"

definition column :: "string \<Rightarrow> string \<Rightarrow> ColumnDefinition" where
  "column n ty = \<lparr>col_name = n, col_type = ty, col_nullable = False,
                  col_defaultValue = JUndefined, col_constraints = None\<rparr>"

definition nullable_column :: "string \<Rightarrow> string \<Rightarrow> ColumnDefinition" where
  "nullable_column n ty = (column n ty)\<lparr>col_nullable := True\<rparr>"

definition users_def :: TableDefinition where
  "users_def = \<lparr>tbl_name = ''users'',
     tbl_columns = [column ''id'' ''integer'', column ''email'' ''string'',
                    column ''created_at'' ''datetime''],
     tbl_primaryKey = Some ''id''\<rparr>"

text \<open>A table with columns named like members of \<^verbatim>\<open>Object.prototype\<close>.\<close>

definition odd_def :: TableDefinition where
  "odd_def = \<lparr>tbl_name = ''odd'',
     tbl_columns = [column ''id'' ''integer'', column ''__proto__'' ''string'',
                    column ''toString'' ''string''],
     tbl_primaryKey = None\<rparr>"

definition user_row :: row where
  "user_row = [(''id'', JNum (Fin 1)), (''email'', JStr ''a@b.c''), (''created_at'', JDate 1000)]"

text \<open>
  \<open>db_with k ts\<close> is a database on backend \<open>k\<close> whose tables have the columns of the
  definitions given, with their nullability and defaults, and hold the rows given; no key
  and no other check is declared.  \<open>db_of ts\<close> gives tables by their rows alone, with no
  column declared: enough where rows are only counted.
\<close>

definition db_with :: "backend \<Rightarrow> (TableDefinition \<times> row list) list \<Rightarrow> db" where
  "db_with k ts =
     \<lparr>db_kind = k,
      db_tables = map (\<lambda>(t, rows). (tbl_name t, rows)) ts,
      db_columns = map (\<lambda>(t, rows). (tbl_name t, tbl_columns t)) ts,
      db_check = (\<lambda>t r. True), db_saved = None, db_maintenance = False\<rparr>"

definition db_of :: "(string \<times> row list) list \<Rightarrow> db" where
  "db_of ts = \<lparr>db_kind = PostgreSQL, db_tables = ts, db_columns = [],
               db_check = (\<lambda>t r. True), db_saved = None, db_maintenance = False\<rparr>"

text \<open>
  A table with a \<open>uuid\<close> column, declared \<^verbatim>\<open>NOT NULL\<close> and declared nullable, and the
  source table of the same name, whose column is nullable text.
\<close>

definition ids_def :: TableDefinition where
  "ids_def = \<lparr>tbl_name = ''ids'', tbl_columns = [column ''id'' ''uuid''], tbl_primaryKey = None\<rparr>"

definition ids_nullable :: TableDefinition where
  "ids_nullable = \<lparr>tbl_name = ''ids'', tbl_columns = [nullable_column ''id'' ''uuid''],
                    tbl_primaryKey = None\<rparr>"

definition ids_text :: TableDefinition where
  "ids_text = \<lparr>tbl_name = ''ids'', tbl_columns = [nullable_column ''id'' ''text''],
                tbl_primaryKey = None\<rparr>"

definition uuid_rows :: "row list" where
  "uuid_rows = [[(''id'', JStr ''550e8400-e29b-41d4-a716-446655440000'')],
                [(''id'', JStr ''not-a-uuid'')],
                [(''id'', JNull)]]"

definition orders_def :: TableDefinition where
  "orders_def = \<lparr>tbl_name = ''orders'', tbl_columns = [column ''id'' ''integer''], tbl_primaryKey = None\<rparr>"

definition contacts_v1 :: TableDefinition where
  "contacts_v1 = \<lparr>tbl_name = ''contacts'',
     tbl_columns = [column ''id'' ''integer'', column ''email'' ''string''],
     tbl_primaryKey = Some ''id''\<rparr>"

definition contacts_v2 :: TableDefinition where
  "contacts_v2 = \<lparr>tbl_name = ''contacts'',
     tbl_columns = [column ''id'' ''integer'', column ''email'' ''string'', column ''phone'' ''string''],
     tbl_primaryKey = Some ''id''\<rparr>"

definition contacts_v3 :: TableDefinition where
  "contacts_v3 = \<lparr>tbl_name = ''contacts'',
     tbl_columns = [column ''id'' ''integer'', column ''email'' ''text'', column ''mobile'' ''string''],
     tbl_primaryKey = Some ''id''\<rparr>"

definition strategy0 :: MigrationStrategy where
  "strategy0 = \<lparr>strat_name = ''Full Migration with Downtime'', strat_downtime = True,
                 strat_rollbackSupported = True\<rparr>"

definition config0 :: DatabaseConfig where
  "config0 = \<lparr>cfg_type = ''postgresql'', cfg_host = ''localhost'', cfg_port = 5432,
               cfg_database = ''app''\<rparr>"

definition done_job :: MigrationJob where
  "done_job = \<lparr>job_id = ''j1'', job_status = Completed, job_sourceDatabase = config0,
                job_targetDatabase = config0, job_strategy = strategy0,
                job_schema = \<lparr>sch_version = ''1.0'', sch_tables = [users_def]\<rparr>,
                job_progress = 100, job_startTime = Some 10, job_endTime = Some 20,
                job_error = None, job_logs = []\<rparr>"

definition engine1 :: engine where
  "engine1 = \<lparr>jobs = [(''j1'', done_job)], events = [], ticks = 0\<rparr>"

definition all_ok :: phases where
  "all_ok = \<lparr>ph_getAdapter = None, ph_setupShadowWrites = None, ph_migrateSchema = None,
              ph_migrateData = ([100], None), ph_migrateDataIncremental = ([100], None),
              ph_cutover = None, ph_validateMigration = None, ph_rollbackSchema = None\<rparr>"

definition no_connection :: phases where
  "no_connection = all_ok\<lparr>ph_getAdapter := Some ''Failed to connect to PostgreSQL''\<rparr>"



definition users_stream :: ReplicationStream where
  "users_stream = \<lparr>st_sourceTable = ''users'', st_shadowTable = ''users_shadow'',
                    st_lastSyncTime = 5000, st_isActive = True\<rparr>"

text \<open>
  The live \<open>users\<close> table with both timestamp columns, and the shadow table that
  \<^verbatim>\<open>setupShadowWrites\<close> creates from the same definition under the shadow name.
\<close>

definition users_live :: TableDefinition where
  "users_live = users_def\<lparr>tbl_columns :=
     tbl_columns users_def @ [nullable_column ''updated_at'' ''datetime'']\<rparr>"

definition world1 :: world where
  "world1 = \<lparr>shadowTables = [(''users'', ''users_shadow'')],
              replicationStreams = [(''users'', users_stream)],
              sourceDb = db_with PostgreSQL [(users_live, [user_row])],
              targetDb = db_with PostgreSQL
                [(users_live, []), (users_live\<lparr>tbl_name := ''users_shadow''\<rparr>, [user_row])],
              emitted = [], readings = 0\<rparr>"

definition worldD :: world where
  "worldD = \<lparr>shadowTables = [(''users'', ''users_shadow'')],
              replicationStreams = [(''users'', users_stream)],
              sourceDb = db_of [(''users'', replicate 100 user_row)],
              targetDb = db_of [(''users'', []), (''users_shadow'', replicate 99 user_row)],
              emitted = [], readings = 0\<rparr>"

section \<open>Rows: properties read and assigned\<close>

lemma set_prop_keys:
  "map fst (set_prop acc k v) =
     (if k = ''__proto__'' \<or> k \<in> set (map fst acc) then map fst acc else map fst acc @ [k])"
  by (simp add: set_prop_def AList.update_keys)

lemma foldl_update_keys:
  "fst ` set (foldl (\<lambda>acc c. set_prop acc (kf c) (vf c)) acc cs) =
     fst ` set acc \<union> (kf ` set cs - {''__proto__''})"
proof (induction cs arbitrary: acc)
  case Nil
  show ?case by simp
next
  case (Cons c cs)
  have "fst ` set (set_prop acc (kf c) (vf c)) =
      (if kf c = ''__proto__'' then fst ` set acc else insert (kf c) (fst ` set acc))"
    unfolding set_prop_def by (simp add: AList.dom_update)
  then show ?case using Cons.IH[of "set_prop acc (kf c) (vf c)"] by auto
qed

lemma foldl_update_distinct:
  "distinct (map fst acc) \<Longrightarrow>
   distinct (map fst (foldl (\<lambda>acc c. set_prop acc (kf c) (vf c)) acc cs))"
proof (induction cs arbitrary: acc)
  case Nil
  then show ?case by simp
next
  case (Cons c cs)
  have "distinct (map fst (set_prop acc (kf c) (vf c)))"
    unfolding set_prop_def using Cons.prems by (simp add: AList.distinct_update)
  from Cons.IH[OF this] show ?case by simp
qed

lemma foldl_update_value:
  "c \<in> set cs \<Longrightarrow> kf c \<noteq> ''__proto__'' \<Longrightarrow> \<forall>c'\<in>set cs. kf c' = kf c \<longrightarrow> vf c' = vf c \<Longrightarrow>
   map_of (foldl (\<lambda>acc c. set_prop acc (kf c) (vf c)) acc cs) (kf c) = Some (vf c)"
proof (induction cs arbitrary: acc rule: rev_induct)
  case Nil
  then show ?case by simp
next
  case (snoc x xs)
  let ?m = "foldl (\<lambda>acc c. set_prop acc (kf c) (vf c)) acc xs"
  have unf: "foldl (\<lambda>acc c. set_prop acc (kf c) (vf c)) acc (xs @ [x]) = set_prop ?m (kf x) (vf x)"
    by simp
  show ?case
  proof (cases "kf x = kf c")
    case True
    with snoc.prems(3) have "vf x = vf c" by simp
    then show ?thesis
      unfolding unf using True snoc.prems(2) by (simp add: set_prop_def AList.update_conv')
  next
    case False
    with snoc.prems(1) have "c \<in> set xs" by auto
    moreover from snoc.prems(3) have "\<forall>c'\<in>set xs. kf c' = kf c \<longrightarrow> vf c' = vf c" by simp
    ultimately have "map_of ?m (kf c) = Some (vf c)" using snoc.prems(2) by (intro snoc.IH)
    then show ?thesis unfolding unf using False by (simp add: set_prop_def AList.update_conv')
  qed
qed

lemma foldl_update_keyseq:
  "map fst acc = map fst acc' \<Longrightarrow>
   map fst (foldl (\<lambda>acc c. set_prop acc (kf c) (vf c)) acc cs) =
   map fst (foldl (\<lambda>acc c. set_prop acc (kf c) (vf' c)) acc' cs)"
proof (induction cs arbitrary: acc acc')
  case Nil
  then show ?case by simp
next
  case (Cons c cs)
  have "map fst (set_prop acc (kf c) (vf c)) = map fst (set_prop acc' (kf c) (vf' c))"
    unfolding set_prop_keys Cons.prems ..
  from Cons.IH[OF this] show ?case by simp
qed

lemma transformRow_keys:
  "fst ` set (transformRow env t r) = col_name ` set (tbl_columns t) - {''__proto__''}"
  unfolding transformRow_def using foldl_update_keys[of col_name "transformCell env r" "[]"] by simp

lemma transformRow_distinct: "distinct (map fst (transformRow env t r))"
  unfolding transformRow_def by (rule foldl_update_distinct) simp

lemma transformRow_keyseq: "map fst (transformRow env t r) = map fst (transformRow env t r')"
  unfolding transformRow_def by (rule foldl_update_keyseq) simp

lemma transformRow_absent:
  assumes "k \<notin> col_name ` set (tbl_columns t)"
  shows "map_of (transformRow env t r) k = None"
proof -
  from assms have "k \<notin> fst ` set (transformRow env t r)" by (simp add: transformRow_keys)
  then show ?thesis by (simp add: map_of_eq_None_iff)
qed

lemma transformRow_cell:
  assumes "c \<in> set (tbl_columns t)" and "col_name c \<noteq> ''__proto__''"
    and "\<forall>c'\<in>set (tbl_columns t). col_name c' = col_name c \<longrightarrow> col_type c' = col_type c"
  shows "map_of (transformRow env t r) (col_name c) = Some (transformCell env r c)"
proof -
  have "transformCell env r c' = transformCell env r c"
    if "c' \<in> set (tbl_columns t)" "col_name c' = col_name c" for c'
  proof -
    from assms(3) that have ty: "col_type c' = col_type c" by blast
    show ?thesis unfolding transformCell_def that(2) ty ..
  qed
  then have "\<forall>c'\<in>set (tbl_columns t). col_name c' = col_name c \<longrightarrow>
          transformCell env r c' = transformCell env r c" by blast
  with assms(1,2) show ?thesis
    unfolding transformRow_def by (rule foldl_update_value)
qed

lemma get_prop_own: "map_of r k = Some v \<Longrightarrow> get_prop r k = v"
  by (simp add: get_prop_def)

text \<open>Reading the own keys of an object gives back its own properties.\<close>

lemma zip_keys_values:
  "distinct (map fst r) \<Longrightarrow> zip (Object_keys r) (map (get_prop r) (Object_keys r)) = r"
proof -
  assume d: "distinct (map fst r)"
  have z: "zip (map f xs) (map g (map f xs)) = map (\<lambda>x. (f x, g (f x))) xs" for f g and xs :: "'a list"
    by (induction xs) simp_all
  have "map (\<lambda>p. (fst p, get_prop r (fst p))) r = map (\<lambda>p. p) r"
  proof (rule map_cong[OF refl])
    fix p assume p: "p \<in> set r"
    have "map_of r (fst p) = Some (snd p)"
      by (rule map_of_is_SomeI[OF d]) (simp add: p)
    then show "(fst p, get_prop r (fst p)) = p" by (simp add: get_prop_own)
  qed
  then show ?thesis unfolding Object_keys_def z by simp
qed

section \<open>Storage: inserting rows\<close>

lemma has_column_frame: "has_column (d\<lparr>db_tables := ts\<rparr>) t = has_column d t"
  by (rule ext) (simp add: has_column_def columns_of_def)

lemma insert_ok_frame: "insert_ok (d\<lparr>db_tables := ts\<rparr>) t cols vals = insert_ok d t cols vals"
  by (simp add: insert_ok_def columns_of_def has_column_frame)

lemma accepts_frame: "accepts (d\<lparr>db_tables := ts\<rparr>) t r = accepts d t r"
  by (simp add: accepts_def insert_ok_frame)

lemma insertRows_accepted:
  "map_of (db_tables d) t = Some old \<Longrightarrow> list_all (insert_ok d t cols) vss \<Longrightarrow>
   insertRows d t cols vss =
     Inr (d\<lparr>db_tables := AList.update t (old @ map (zip cols) vss) (db_tables d)\<rparr>)"
proof (induction vss arbitrary: d old)
  case Nil
  have "AList.update t old (db_tables d) = db_tables d"
    using Nil.prems(1) by (rule AList.update_triv)
  then show ?case by simp
next
  case (Cons vs vss)
  let ?d1 = "d\<lparr>db_tables := AList.update t (old @ [zip cols vs]) (db_tables d)\<rparr>"
  have one: "insert_row d t cols vs = Inr ?d1"
    using Cons.prems by (simp add: insert_row_def)
  have old1: "map_of (db_tables ?d1) t = Some (old @ [zip cols vs])"
    by (simp add: AList.update_conv')
  have fr: "insert_ok ?d1 t cols = insert_ok d t cols"
    by (rule ext) (simp add: insert_ok_frame)
  have ok1: "list_all (insert_ok ?d1 t cols) vss"
    using Cons.prems(2) unfolding fr by simp
  show ?case
    using one Cons.IH[OF old1 ok1] by simp
qed

text \<open>
  The first failing row stops the call: the rows before it stay in the table.
\<close>

lemma insertRows_refused:
  "map_of (db_tables d) t = Some old \<Longrightarrow> \<not> list_all (insert_ok d t cols) vss \<Longrightarrow>
   insertRows d t cols vss =
     Inl (QueryFailed t,
          d\<lparr>db_tables := AList.update t
               (old @ map (zip cols) (takeWhile (insert_ok d t cols) vss)) (db_tables d)\<rparr>)"
proof (induction vss arbitrary: d old)
  case Nil
  then show ?case by simp
next
  case (Cons vs vss)
  show ?case
  proof (cases "insert_ok d t cols vs")
    case False
    have "AList.update t old (db_tables d) = db_tables d"
      using Cons.prems(1) by (rule AList.update_triv)
    then show ?thesis using False Cons.prems(1) by (simp add: insert_row_def)
  next
    case True
    let ?d1 = "d\<lparr>db_tables := AList.update t (old @ [zip cols vs]) (db_tables d)\<rparr>"
    have one: "insert_row d t cols vs = Inr ?d1"
      using Cons.prems(1) True by (simp add: insert_row_def)
    have old1: "map_of (db_tables ?d1) t = Some (old @ [zip cols vs])"
      by (simp add: AList.update_conv')
    have fr: "insert_ok ?d1 t cols = insert_ok d t cols"
      by (rule ext) (simp add: insert_ok_frame)
    have bad1: "\<not> list_all (insert_ok ?d1 t cols) vss"
      using Cons.prems(2) True unfolding fr by simp
    show ?thesis
      using one True Cons.IH[OF old1 bad1] unfolding fr by simp
  qed
qed

lemma insertData_transformed:
  assumes old: "map_of (db_tables d) n = Some old"
    and acc: "\<forall>r\<in>set rows. accepts d n (transformRow env t r)"
  shows "insertData d n (transformData env rows t) =
     Inr (d\<lparr>db_tables := AList.update n (old @ transformData env rows t) (db_tables d)\<rparr>)"
proof (cases rows)
  case Nil
  have "AList.update n old (db_tables d) = db_tables d"
    using old by (rule AList.update_triv)
  then show ?thesis using Nil by (simp add: insertData_def transformData_def)
next
  case (Cons r0 rest)
  define K where "K = Object_keys (transformRow env t r0)"
  define rd where "rd = (\<lambda>row. map (get_prop row) K)"
  let ?T = "transformData env rows t"
  have keys: "Object_keys (transformRow env t r) = K" for r
    unfolding K_def Object_keys_def by (rule transformRow_keyseq)
  have ok: "list_all (insert_ok d n K) (map rd ?T)"
    using acc by (simp add: list_all_iff transformData_def accepts_def keys rd_def)
  have each: "zip K (rd (transformRow env t r)) = transformRow env t r" for r
    using zip_keys_values[OF transformRow_distinct, of env t r] by (simp add: keys rd_def)
  have unzip: "map (zip K) (map rd ?T) = ?T"
    by (simp add: transformData_def o_def each)
  have "insertData d n ?T = insertRows d n K (map rd ?T)"
    using Cons by (simp add: insertData_def transformData_def Let_def K_def rd_def)
  also have "\<dots> = Inr (d\<lparr>db_tables := AList.update n (old @ map (zip K) (map rd ?T)) (db_tables d)\<rparr>)"
    using old ok by (rule insertRows_accepted)
  finally show ?thesis unfolding unzip .
qed

text \<open>
  When the target refuses one of the transformed rows, the call fails at the first such
  row of the batch.
\<close>

lemma insertData_transformed_refused:
  assumes old: "map_of (db_tables d) n = Some old"
    and bad: "\<not> (\<forall>r\<in>set rows. accepts d n (transformRow env t r))"
  shows "insertData d n (transformData env rows t) =
     Inl (QueryFailed n,
          d\<lparr>db_tables := AList.update n
               (old @ takeWhile (accepts d n) (transformData env rows t)) (db_tables d)\<rparr>)"
proof (cases rows)
  case Nil
  with bad show ?thesis by simp
next
  case (Cons r0 rest)
  define K where "K = Object_keys (transformRow env t r0)"
  define rd where "rd = (\<lambda>row. map (get_prop row) K)"
  let ?T = "transformData env rows t"
  have keys: "Object_keys (transformRow env t r) = K" for r
    unfolding K_def Object_keys_def by (rule transformRow_keyseq)
  have ok_iff: "insert_ok d n K (rd (transformRow env t r)) = accepts d n (transformRow env t r)" for r
    by (simp add: accepts_def keys rd_def)
  have notall: "\<not> list_all (insert_ok d n K) (map rd ?T)"
    using bad by (simp add: list_all_iff transformData_def ok_iff)
  have tw: "takeWhile (insert_ok d n K) (map rd ?T) = map rd (takeWhile (accepts d n) ?T)"
    unfolding takeWhile_map transformData_def by (simp add: o_def ok_iff)
  have each: "zip K (rd (transformRow env t r)) = transformRow env t r" for r
    using zip_keys_values[OF transformRow_distinct, of env t r] by (simp add: keys rd_def)
  have unzip: "map (zip K) (map rd (takeWhile (accepts d n) ?T)) = takeWhile (accepts d n) ?T"
  proof -
    have "map (\<lambda>r'. zip K (rd r')) (takeWhile (accepts d n) ?T) =
        map (\<lambda>r'. r') (takeWhile (accepts d n) ?T)"
    proof (rule map_cong[OF refl])
      fix r' assume "r' \<in> set (takeWhile (accepts d n) ?T)"
      then have "r' \<in> set ?T" by (rule set_takeWhileD[THEN conjunct1])
      then obtain r where r': "r' = transformRow env t r" by (auto simp: transformData_def)
      show "zip K (rd r') = r'" unfolding r' by (rule each)
    qed
    then show ?thesis by (simp add: o_def)
  qed
  have "insertData d n ?T = insertRows d n K (map rd ?T)"
    using Cons by (simp add: insertData_def transformData_def Let_def K_def rd_def)
  also have "\<dots> = Inl (QueryFailed n,
          d\<lparr>db_tables := AList.update n
               (old @ map (zip K) (takeWhile (insert_ok d n K) (map rd ?T))) (db_tables d)\<rparr>)"
    using old notall by (rule insertRows_refused)
  finally show ?thesis unfolding tw unzip .
qed

section \<open>Full migration: pages fetched and rows inserted\<close>

lemma migrateLoop_run:
  assumes B: "0 < B"
    and src: "map_of (db_tables src) (tbl_name t) = Some rows"
  shows "map_of (db_tables tgt) (tbl_name t) = Some old \<Longrightarrow>
     \<forall>r\<in>set (drop off rows). accepts tgt (tbl_name t) (transformRow env t r) \<Longrightarrow>
     migrateLoop env B src t off pages m tgt =
       Inr (pages @ replicate ((length rows - off) div B) B @ [(length rows - off) mod B],
            m + (length rows - off),
            tgt\<lparr>db_tables := AList.update (tbl_name t)
                  (old @ transformData env (drop off rows) t) (db_tables tgt)\<rparr>)"
proof (induction "length rows - off" arbitrary: off pages m tgt old rule: less_induct)
  case less
  let ?N = "length rows - off"
  let ?data = "take B (drop off rows)"
  have sel: "selectData src (tbl_name t) B off = Inr ?data"
    using src by (simp add: selectData_def)
  consider (empty) "?N = 0" | (last) "0 < ?N" "?N < B" | (full) "B \<le> ?N"
    by linarith
  then show ?case
  proof cases
    case empty
    then have "?data = []" by simp
    moreover have "AList.update (tbl_name t) old (db_tables tgt) = db_tables tgt"
      using less.prems(1) by (rule AList.update_triv)
    ultimately show ?thesis
      using empty sel by (subst migrateLoop.simps) (simp add: transformData_def)
  next
    case last
    then have d: "?data = drop off rows" by simp
    have ne: "drop off rows \<noteq> []" using last by simp
    have ins: "insertData tgt (tbl_name t) (transformData env (drop off rows) t) =
       Inr (tgt\<lparr>db_tables := AList.update (tbl_name t)
              (old @ transformData env (drop off rows) t) (db_tables tgt)\<rparr>)"
      using less.prems by (rule insertData_transformed)
    show ?thesis
      using last sel ins ne by (subst migrateLoop.simps) (simp add: d)
  next
    case full
    with B have pos: "0 < ?N" by linarith
    have ne: "?data \<noteq> []" using pos B by simp
    have lenB: "length ?data = B" using full by simp
    let ?tgt' = "tgt\<lparr>db_tables := AList.update (tbl_name t)
                   (old @ transformData env ?data t) (db_tables tgt)\<rparr>"
    have acc: "\<forall>r\<in>set ?data. accepts tgt (tbl_name t) (transformRow env t r)"
      using less.prems(2) by (meson in_set_takeD)
    have ins: "insertData tgt (tbl_name t) (transformData env ?data t) = Inr ?tgt'"
      using less.prems(1) acc by (rule insertData_transformed)
    have acc': "\<forall>r\<in>set (drop (off + B) rows). accepts ?tgt' (tbl_name t) (transformRow env t r)"
    proof
      fix r assume "r \<in> set (drop (off + B) rows)"
      then have "r \<in> set (drop B (drop off rows))" by (simp add: add.commute)
      then have "r \<in> set (drop off rows)" by (rule in_set_dropD)
      with less.prems(2) show "accepts ?tgt' (tbl_name t) (transformRow env t r)"
        by (simp add: accepts_frame)
    qed
    have old': "map_of (db_tables ?tgt') (tbl_name t) = Some (old @ transformData env ?data t)"
      by (simp add: AList.update_conv')
    have dec: "length rows - (off + B) < ?N" using pos B by linarith
    have step: "migrateLoop env B src t off pages m tgt =
        migrateLoop env B src t (off + B) (pages @ [B]) (m + B) ?tgt'"
      using sel ins ne lenB by (subst migrateLoop.simps) simp
    have split: "?data @ drop (off + B) rows = drop off rows"
      by (metis add.commute append_take_drop_id drop_drop)
    have tr: "transformData env ?data t @ transformData env (drop (off + B) rows) t
        = transformData env (drop off rows) t"
      unfolding transformData_def map_append[symmetric] split ..
    have dv: "?N div B = Suc ((length rows - (off + B)) div B)"
      using le_div_geq[OF B full] by (simp add: diff_diff_left[symmetric] del: diff_diff_left)
    have md: "?N mod B = (length rows - (off + B)) mod B"
      using le_mod_geq[OF full] by (simp add: diff_diff_left[symmetric] del: diff_diff_left)
    have sm: "m + B + (length rows - (off + B)) = m + ?N"
      using full by linarith
    show ?thesis
      unfolding step less.hyps[OF dec old' acc'] dv md sm
      by (simp add: tr replicate_app_Cons_same)
  qed
qed

lemma migrateTableData_run:
  assumes "0 < B" "has_table src (tbl_name t)" "has_table tgt (tbl_name t)"
    and "\<forall>r\<in>set (rows_of src (tbl_name t)). accepts tgt (tbl_name t) (transformRow env t r)"
  shows "migrateTableData env B src tgt t =
       Inr (replicate (length (rows_of src (tbl_name t)) div B) B @
              [length (rows_of src (tbl_name t)) mod B],
            length (rows_of src (tbl_name t)),
            tgt\<lparr>db_tables := AList.update (tbl_name t)
               (rows_of tgt (tbl_name t) @ transformData env (rows_of src (tbl_name t)) t)
               (db_tables tgt)\<rparr>)"
proof -
  from assms obtain rows old where
    r: "map_of (db_tables src) (tbl_name t) = Some rows" and
    ol: "map_of (db_tables tgt) (tbl_name t) = Some old"
    by (auto simp: has_table_def)
  from assms(4) have acc: "\<forall>x\<in>set (drop 0 rows). accepts tgt (tbl_name t) (transformRow env t x)"
    by (simp add: rows_of_def r)
  show ?thesis
    unfolding migrateTableData_def
    using migrateLoop_run[OF assms(1) r ol acc, of "[]" 0]
    by (simp add: rows_of_def r ol)
qed


lemma setBatchSize_range: "1 \<le> setBatchSize sz \<and> setBatchSize sz \<le> 10000"
  unfolding setBatchSize_def by linarith



section \<open>Value transformation: the shape of a migrated row\<close>

lemma transformRow_null:
  assumes "c \<in> set (tbl_columns t)" and "col_name c \<noteq> ''__proto__''"
    and "get_prop r (col_name c) = JNull \<or> get_prop r (col_name c) = JUndefined"
  shows "map_of (transformRow env t r) (col_name c) = Some (get_prop r (col_name c))"
proof -
  have cell: "transformCell env r c' = get_prop r (col_name c)" if "col_name c' = col_name c" for c'
    using assms(3) that by (auto simp: transformCell_def)
  have "map_of (transformRow env t r) (col_name c) = Some (transformCell env r c)"
    unfolding transformRow_def
    by (rule foldl_update_value[where kf = col_name, OF assms(1,2)]) (simp add: cell)
  then show ?thesis by (simp add: cell)
qed

text \<open>
  Claim C10, as stated, fails for a column named \<^verbatim>\<open>__proto__\<close>: the assignment
  \<^verbatim>\<open>transformedRow['__proto__'] = value\<close> creates no property, so the returned row lacks
  that column name.  The same table shows what a cell is when the source row has no such
  property but \<^verbatim>\<open>Object.prototype\<close> has a member of that name: the column \<open>toString\<close> reads
  the inherited function, which is not \<open>undefined\<close> and is converted to a string.
\<close>

theorem transformData_proto_counterexample:
  "''__proto__'' \<in> col_name ` set (tbl_columns odd_def) \<and>
   transformData env0 [[(''id'', JNum (Fin 7))]] odd_def =
     [[(''id'', JNum (Fin 7)), (''toString'', JStr (to_string env0 (JFun ''toString'')))]]"
  by (simp add: odd_def_def column_def transformData_def transformRow_def transformCell_def
      transformValue_def get_prop_def set_prop_def Object_prototype_def toLowerCase_def
      lower_char_def String_js_def Number_js_def isNaN_def Math_floor_def)

text \<open>
  Claim C10, amended.  Let no column of the table definition be named \<^verbatim>\<open>__proto__\<close>.
  \<^verbatim>\<open>transformData\<close> returns one row per input row, and each returned row has exactly the
  column names of the definition as its keys (each once): a property of the source row
  that the definition does not name is absent from the result.  The cell of a column is
  what \<^verbatim>\<open>row[name]\<close> reads: the row's own property, else the member of that name inherited
  from \<^verbatim>\<open>Object.prototype\<close>, else \<open>undefined\<close>.  A cell that reads \<open>null\<close> or \<open>undefined\<close> is
  copied as it is, whatever the column's type.
\<close>

theorem transformData_columns:
  assumes "''__proto__'' \<notin> col_name ` set (tbl_columns t)"
  shows "length (transformData env data t) = length data \<and>
   (\<forall>i<length data.
      fst ` set (transformData env data t ! i) = col_name ` set (tbl_columns t) \<and>
      distinct (map fst (transformData env data t ! i)) \<and>
      (\<forall>k. k \<notin> col_name ` set (tbl_columns t) \<longrightarrow> map_of (transformData env data t ! i) k = None) \<and>
      (\<forall>c\<in>set (tbl_columns t).
         get_prop (data ! i) (col_name c) = JNull \<or> get_prop (data ! i) (col_name c) = JUndefined \<longrightarrow>
         map_of (transformData env data t ! i) (col_name c) = Some (get_prop (data ! i) (col_name c))))"
proof -
  have keys: "fst ` set (transformRow env t r) = col_name ` set (tbl_columns t)" for r
    using assms by (simp add: transformRow_keys)
  have np: "col_name c \<noteq> ''__proto__''" if "c \<in> set (tbl_columns t)" for c
    using assms that by (metis image_eqI)
  show ?thesis
    by (simp add: transformData_def keys transformRow_distinct transformRow_absent
        transformRow_null np)
qed

theorem transformData_columns_witness:
  "''__proto__'' \<notin> col_name ` set (tbl_columns users_def) \<and>
   fst ` set (transformData env0
       [[(''id'', JNum (Fin 7)), (''email'', JNull), (''extra'', JStr ''x'')]] users_def ! 0) =
     {''id'', ''email'', ''created_at''} \<and>
   map_of (transformData env0
       [[(''id'', JNum (Fin 7)), (''email'', JNull), (''extra'', JStr ''x'')]] users_def ! 0) ''extra'' = None \<and>
   map_of (transformData env0
       [[(''id'', JNum (Fin 7)), (''email'', JNull), (''extra'', JStr ''x'')]] users_def ! 0) ''email'' = Some JNull \<and>
   map_of (transformData env0
       [[(''id'', JNum (Fin 7)), (''email'', JNull), (''extra'', JStr ''x'')]] users_def ! 0) ''created_at'' = Some JUndefined"
  using transformData_columns[of users_def env0 "[[(''id'', JNum (Fin 7)), (''email'', JNull), (''extra'', JStr ''x'')]]"]
  by (simp add: users_def_def column_def get_prop_def Object_prototype_def)

section \<open>Value transformation: UUID columns\<close>

lemma transformCell_uuid:
  assumes "toLowerCase (col_type c) = ''uuid''"
  shows "transformCell env r c =
     (let v = get_prop r (col_name c) in
      if v = JNull \<or> v = JUndefined then v
      else if uuidRegex_test (String_js env v) then JStr (String_js env v) else JNull)"
  using assms by (simp add: transformCell_def transformValue_def Let_def)

text \<open>
  The loop of \<^verbatim>\<open>migrateTableData\<close> when the target refuses a transformed row: the
  \<^verbatim>\<open>INSERT\<close> of the first such row throws, nothing catches it, and the rows before it are
  in the target.
\<close>

lemma migrateLoop_refused:
  assumes B: "0 < B"
    and src: "map_of (db_tables src) (tbl_name t) = Some rows"
  shows "map_of (db_tables tgt) (tbl_name t) = Some old \<Longrightarrow>
     \<not> (\<forall>r\<in>set (drop off rows). accepts tgt (tbl_name t) (transformRow env t r)) \<Longrightarrow>
     migrateLoop env B src t off pages m tgt =
       Inl (QueryFailed (tbl_name t),
            tgt\<lparr>db_tables := AList.update (tbl_name t)
                  (old @ takeWhile (accepts tgt (tbl_name t)) (transformData env (drop off rows) t))
                  (db_tables tgt)\<rparr>)"
proof (induction "length rows - off" arbitrary: off pages m tgt old rule: less_induct)
  case less
  let ?n = "tbl_name t"
  let ?N = "length rows - off"
  let ?data = "take B (drop off rows)"
  let ?rest = "drop (off + B) rows"
  have sel: "selectData src ?n B off = Inr ?data"
    using src by (simp add: selectData_def)
  have split: "?data @ ?rest = drop off rows"
    by (metis add.commute append_take_drop_id drop_drop)
  have tr: "transformData env (drop off rows) t = transformData env ?data t @ transformData env ?rest t"
    unfolding transformData_def map_append[symmetric] split ..
  from less.prems(2) have ne0: "drop off rows \<noteq> []" by auto
  then have pos: "0 < ?N" by simp
  have ne: "?data \<noteq> []" using pos B by simp
  show ?case
  proof (cases "\<forall>r\<in>set ?data. accepts tgt ?n (transformRow env t r)")
    case False
    have ins: "insertData tgt ?n (transformData env ?data t) =
        Inl (QueryFailed ?n,
             tgt\<lparr>db_tables := AList.update ?n
                   (old @ takeWhile (accepts tgt ?n) (transformData env ?data t)) (db_tables tgt)\<rparr>)"
      using less.prems(1) False by (rule insertData_transformed_refused)
    from False obtain r where r: "r \<in> set ?data" "\<not> accepts tgt ?n (transformRow env t r)" by blast
    then have "transformRow env t r \<in> set (transformData env ?data t)"
      by (simp add: transformData_def)
    from this r(2) have tw: "takeWhile (accepts tgt ?n) (transformData env (drop off rows) t) =
        takeWhile (accepts tgt ?n) (transformData env ?data t)"
      unfolding tr by (rule takeWhile_append1)
    show ?thesis
      unfolding tw using sel ins ne by (subst migrateLoop.simps) simp
  next
    case True
    let ?tgt' = "tgt\<lparr>db_tables := AList.update ?n (old @ transformData env ?data t) (db_tables tgt)\<rparr>"
    have ins: "insertData tgt ?n (transformData env ?data t) = Inr ?tgt'"
      using less.prems(1) True by (rule insertData_transformed)
    have "set (drop off rows) = set ?data \<union> set ?rest"
      using split by (metis set_append)
    with less.prems(2) True have bad: "\<not> (\<forall>r\<in>set ?rest. accepts tgt ?n (transformRow env t r))"
      by auto
    then have "?rest \<noteq> []" by auto
    then have full: "B \<le> ?N" by simp
    have lenB: "length ?data = B" using full by simp
    have fr: "accepts ?tgt' ?n = accepts tgt ?n"
      by (rule ext) (simp add: accepts_frame)
    have bad': "\<not> (\<forall>r\<in>set ?rest. accepts ?tgt' ?n (transformRow env t r))"
      using bad unfolding fr .
    have old': "map_of (db_tables ?tgt') ?n = Some (old @ transformData env ?data t)"
      by (simp add: AList.update_conv')
    have dec: "length rows - (off + B) < ?N" using pos B by linarith
    have step: "migrateLoop env B src t off pages m tgt =
        migrateLoop env B src t (off + B) (pages @ [B]) (m + B) ?tgt'"
      using sel ins ne lenB by (subst migrateLoop.simps) simp
    have "\<And>x. x \<in> set (transformData env ?data t) \<Longrightarrow> accepts tgt ?n x"
      using True by (auto simp: transformData_def)
    then have tw: "takeWhile (accepts tgt ?n) (transformData env (drop off rows) t) =
        transformData env ?data t @ takeWhile (accepts tgt ?n) (transformData env ?rest t)"
      unfolding tr by (rule takeWhile_append2)
    show ?thesis
      unfolding step less.hyps[OF dec old' bad'] fr tw by simp
  qed
qed

lemma migrateTableData_refused:
  assumes "0 < B" "has_table src (tbl_name t)" "has_table tgt (tbl_name t)"
    and "\<not> (\<forall>r\<in>set (rows_of src (tbl_name t)). accepts tgt (tbl_name t) (transformRow env t r))"
  shows "migrateTableData env B src tgt t =
       Inl (QueryFailed (tbl_name t),
            tgt\<lparr>db_tables := AList.update (tbl_name t)
               (rows_of tgt (tbl_name t) @
                takeWhile (accepts tgt (tbl_name t)) (transformData env (rows_of src (tbl_name t)) t))
               (db_tables tgt)\<rparr>)"
proof -
  from assms obtain rows old where
    r: "map_of (db_tables src) (tbl_name t) = Some rows" and
    ol: "map_of (db_tables tgt) (tbl_name t) = Some old"
    by (auto simp: has_table_def)
  from assms(4) have bad: "\<not> (\<forall>x\<in>set (drop 0 rows). accepts tgt (tbl_name t) (transformRow env t x))"
    by (simp add: rows_of_def r)
  show ?thesis
    unfolding migrateTableData_def
    using migrateLoop_refused[OF assms(1) r ol bad, of "[]" 0]
    by (simp add: rows_of_def r ol)
qed

text \<open>
  A row whose cell would leave \<open>NULL\<close> in a column that the target declares \<^verbatim>\<open>NOT NULL\<close> is
  refused.
\<close>

lemma not_null_refuses:
  assumes "distinct (map fst r)" and "map_of r k = Some v" and "is_null v"
    and "c' \<in> set (columns_of d n)" and "col_name c' = k" and "\<not> col_nullable c'"
  shows "\<not> accepts d n r"
proof -
  have "map_of (zip (Object_keys r) (map (get_prop r) (Object_keys r))) (col_name c') = Some v"
    unfolding zip_keys_values[OF assms(1)] using assms(2,5) by simp
  with assms(3,4,6) have "\<not> list_all (\<lambda>c. if col_nullable c then True
        else \<not> is_null (case map_of (zip (Object_keys r) (map (get_prop r) (Object_keys r))) (col_name c) of
                           None \<Rightarrow> col_defaultValue c | Some v \<Rightarrow> v)) (columns_of d n)"
    by (auto simp: list_all_iff)
  then show ?thesis by (simp add: accepts_def insert_ok_def)
qed

text \<open>
  Claim C5, as stated, fails: a value that does not match the UUID pattern is replaced by
  \<open>null\<close> in its cell, and the row is transferred all the same when the target column takes
  \<open>NULL\<close>.  Here the only source row holds an invalid UUID and the target column is
  nullable; the full migration fetches the row, and the target ends with one row, as many
  as the source has, whose \<open>id\<close> is \<open>null\<close>.
\<close>

theorem migrateFull_uuid_counterexample:
  "\<not> uuidRegex_test ''not-a-uuid'' \<and>
   migrateData env0 1000 (db_with PostgreSQL [(ids_text, [[(''id'', JStr ''not-a-uuid'')]])])
       (db_with PostgreSQL [(ids_nullable, [])])
       \<lparr>sch_version = ''1.0'', sch_tables = [ids_nullable]\<rparr> =
     Inr ([[1]], [100], db_with PostgreSQL [(ids_nullable, [[(''id'', JNull)]])])"
proof -
  have tr: "transformRow env0 ids_nullable [(''id'', JStr ''not-a-uuid'')] = [(''id'', JNull)]"
    by (simp add: ids_nullable_def nullable_column_def column_def transformRow_def
        transformCell_def transformValue_def get_prop_def set_prop_def toLowerCase_def
        lower_char_def String_js_def uuidRegex_test_def)
  have a: "accepts (db_with PostgreSQL [(ids_nullable, [])]) ''ids'' [(''id'', JNull)]"
    by (simp add: accepts_def insert_ok_def has_column_def columns_of_def is_null_def
        Object_keys_def get_prop_def db_with_def ids_nullable_def nullable_column_def column_def)
  let ?src = "db_with PostgreSQL [(ids_text, [[(''id'', JStr ''not-a-uuid'')]])]"
  let ?tgt = "db_with PostgreSQL [(ids_nullable, [])]"
  have n: "tbl_name ids_nullable = ''ids''" by (simp add: ids_nullable_def)
  have rs: "rows_of ?src ''ids'' = [[(''id'', JStr ''not-a-uuid'')]]"
    by (simp add: rows_of_def db_with_def ids_text_def)
  have h1: "has_table ?src (tbl_name ids_nullable)"
    by (simp add: has_table_def db_with_def n ids_text_def)
  have h2: "has_table ?tgt (tbl_name ids_nullable)" by (simp add: has_table_def db_with_def n)
  have h3: "\<forall>r\<in>set (rows_of ?src (tbl_name ids_nullable)).
      accepts ?tgt (tbl_name ids_nullable) (transformRow env0 ids_nullable r)"
    unfolding n rs by (simp add: tr a)
  have t: "migrateTableData env0 1000 ?src ?tgt ids_nullable =
      Inr ([1], 1, db_with PostgreSQL [(ids_nullable, [[(''id'', JNull)]])])"
    unfolding migrateTableData_run[OF _ h1 h2 h3, of 1000, simplified] n rs
    by (simp add: rows_of_def db_with_def n transformData_def tr)
  show ?thesis
    by (simp add: migrateData_def t uuidRegex_test_def)
qed

text \<open>
  Claim C5, amended.  Take a batch size of at least 1, a table that exists in both
  databases, and a column of type \<open>uuid\<close> whose name is not \<^verbatim>\<open>__proto__\<close> and is not
  shared with a column of another type.  No row is dropped by the validation: the cell of
  a transformed row is the source value when that is \<open>null\<close> or \<open>undefined\<close>, its string
  form when the string form matches the pattern, and \<open>null\<close> otherwise, so the number of
  transformed rows whose cell is \<open>null\<close> equals the number of source rows whose value is
  \<open>null\<close> or is present and does not match.  What is transferred depends on the target.
  When the target takes every transformed row, the full migration of the table transfers
  exactly as many rows as the source table has.  Otherwise the \<^verbatim>\<open>INSERT\<close> of the first row
  that the target refuses throws, the migration of the table fails with that error, and
  the target holds the transformed rows before that one and no later one.  A target that
  declares the column \<^verbatim>\<open>NOT NULL\<close> refuses every row whose cell is \<open>null\<close> or \<open>undefined\<close>.
\<close>

theorem migrateFull_uuid:
  assumes "0 < B" and "has_table src (tbl_name t)" and "has_table tgt (tbl_name t)"
    and "c \<in> set (tbl_columns t)" and "col_name c \<noteq> ''__proto__''"
    and "toLowerCase (col_type c) = ''uuid''"
    and "\<forall>c'\<in>set (tbl_columns t). col_name c' = col_name c \<longrightarrow> col_type c' = col_type c"
  shows "length (transformData env (rows_of src (tbl_name t)) t) = length (rows_of src (tbl_name t)) \<and>
      (\<forall>i<length (rows_of src (tbl_name t)).
         map_of (transformData env (rows_of src (tbl_name t)) t ! i) (col_name c) =
           Some (let v = get_prop (rows_of src (tbl_name t) ! i) (col_name c) in
                 if v = JNull \<or> v = JUndefined then v
                 else if uuidRegex_test (String_js env v) then JStr (String_js env v) else JNull)) \<and>
      length (filter (\<lambda>r'. map_of r' (col_name c) = Some JNull)
                (transformData env (rows_of src (tbl_name t)) t)) =
      length (filter (\<lambda>r. let v = get_prop r (col_name c) in
                           v = JNull \<or> (v \<noteq> JUndefined \<and> \<not> uuidRegex_test (String_js env v)))
                (rows_of src (tbl_name t))) \<and>
      (if \<forall>r\<in>set (rows_of src (tbl_name t)). accepts tgt (tbl_name t) (transformRow env t r)
       then \<exists>pages tgt'.
              migrateTableData env B src tgt t = Inr (pages, length (rows_of src (tbl_name t)), tgt') \<and>
              rows_of tgt' (tbl_name t) =
                rows_of tgt (tbl_name t) @ transformData env (rows_of src (tbl_name t)) t
       else \<exists>tgt'.
              migrateTableData env B src tgt t = Inl (QueryFailed (tbl_name t), tgt') \<and>
              rows_of tgt' (tbl_name t) =
                rows_of tgt (tbl_name t) @
                takeWhile (accepts tgt (tbl_name t)) (transformData env (rows_of src (tbl_name t)) t)) \<and>
      (\<forall>r\<in>set (rows_of src (tbl_name t)).
         (\<exists>c'\<in>set (columns_of tgt (tbl_name t)). col_name c' = col_name c \<and> \<not> col_nullable c') \<and>
         (\<exists>v. map_of (transformRow env t r) (col_name c) = Some v \<and> is_null v) \<longrightarrow>
         \<not> accepts tgt (tbl_name t) (transformRow env t r))"
proof -
  let ?n = "tbl_name t"
  let ?rows = "rows_of src ?n"
  let ?T = "transformData env ?rows t"
  have cell: "map_of (transformRow env t r) (col_name c) =
      Some (let v = get_prop r (col_name c) in
            if v = JNull \<or> v = JUndefined then v
            else if uuidRegex_test (String_js env v) then JStr (String_js env v) else JNull)" for r
    using transformRow_cell[OF assms(4,5,7)] transformCell_uuid[OF assms(6)] by simp
  have nulled: "(map_of (transformRow env t r) (col_name c) = Some JNull) =
      (let v = get_prop r (col_name c) in
         v = JNull \<or> (v \<noteq> JUndefined \<and> \<not> uuidRegex_test (String_js env v)))" for r
    unfolding cell by (auto simp: Let_def)
  have cnt: "length (filter (\<lambda>r'. map_of r' (col_name c) = Some JNull) (transformData env rs t)) =
      length (filter (\<lambda>r. let v = get_prop r (col_name c) in
                           v = JNull \<or> (v \<noteq> JUndefined \<and> \<not> uuidRegex_test (String_js env v))) rs)"
    for rs
    unfolding transformData_def filter_map length_map o_def nulled ..
  have run: "if \<forall>r\<in>set ?rows. accepts tgt ?n (transformRow env t r)
       then \<exists>pages tgt'.
              migrateTableData env B src tgt t = Inr (pages, length ?rows, tgt') \<and>
              rows_of tgt' ?n = rows_of tgt ?n @ ?T
       else \<exists>tgt'.
              migrateTableData env B src tgt t = Inl (QueryFailed ?n, tgt') \<and>
              rows_of tgt' ?n = rows_of tgt ?n @ takeWhile (accepts tgt ?n) ?T"
  proof (cases "\<forall>r\<in>set ?rows. accepts tgt ?n (transformRow env t r)")
    case True
    let ?tgt' = "tgt\<lparr>db_tables := AList.update ?n (rows_of tgt ?n @ ?T) (db_tables tgt)\<rparr>"
    have "migrateTableData env B src tgt t =
        Inr (replicate (length ?rows div B) B @ [length ?rows mod B], length ?rows, ?tgt')"
      using assms(1-3) True by (rule migrateTableData_run)
    moreover have "rows_of ?tgt' ?n = rows_of tgt ?n @ ?T"
      by (simp add: rows_of_def AList.update_conv')
    ultimately show ?thesis using True by auto
  next
    case False
    let ?tgt' = "tgt\<lparr>db_tables := AList.update ?n
        (rows_of tgt ?n @ takeWhile (accepts tgt ?n) ?T) (db_tables tgt)\<rparr>"
    have "migrateTableData env B src tgt t = Inl (QueryFailed ?n, ?tgt')"
      using assms(1-3) False by (rule migrateTableData_refused)
    moreover have "rows_of ?tgt' ?n = rows_of tgt ?n @ takeWhile (accepts tgt ?n) ?T"
      by (simp add: rows_of_def AList.update_conv')
    ultimately show ?thesis using False by auto
  qed
  have strict: "\<not> accepts tgt ?n (transformRow env t r)"
    if "\<exists>c'\<in>set (columns_of tgt ?n). col_name c' = col_name c \<and> \<not> col_nullable c'"
      and "\<exists>v. map_of (transformRow env t r) (col_name c) = Some v \<and> is_null v" for r
  proof -
    from that obtain c' v where
      c': "c' \<in> set (columns_of tgt ?n)" "col_name c' = col_name c" "\<not> col_nullable c'" and
      v: "map_of (transformRow env t r) (col_name c) = Some v" "is_null v" by blast
    from transformRow_distinct v c' show ?thesis by (rule not_null_refuses)
  qed
  have len: "length ?T = length ?rows" by (simp add: transformData_def)
  have cells: "\<forall>i<length ?rows. map_of (?T ! i) (col_name c) =
           Some (let v = get_prop (?rows ! i) (col_name c) in
                 if v = JNull \<or> v = JUndefined then v
                 else if uuidRegex_test (String_js env v) then JStr (String_js env v) else JNull)"
    by (simp add: transformData_def cell)
  from len cells cnt[of ?rows] run strict show ?thesis by blast
qed


theorem migrateFull_uuid_witness:
  "(0::nat) < 1000 \<and> has_table (db_with PostgreSQL [(ids_text, uuid_rows)]) ''ids'' \<and>
   toLowerCase ''uuid'' = ''uuid'' \<and>
   transformData env0 uuid_rows ids_def =
     [[(''id'', JStr ''550e8400-e29b-41d4-a716-446655440000'')], [(''id'', JNull)], [(''id'', JNull)]] \<and>
   (\<exists>tgt'.
      migrateTableData env0 1000 (db_with PostgreSQL [(ids_text, uuid_rows)])
        (db_with PostgreSQL [(ids_def, [])]) ids_def = Inl (QueryFailed ''ids'', tgt') \<and>
      rows_of tgt' ''ids'' = [[(''id'', JStr ''550e8400-e29b-41d4-a716-446655440000'')]]) \<and>
   (\<exists>pages tgt'.
      migrateTableData env0 1000 (db_with PostgreSQL [(ids_text, uuid_rows)])
        (db_with PostgreSQL [(ids_nullable, [])]) ids_nullable = Inr (pages, 3, tgt') \<and>
      rows_of tgt' ''ids'' =
        [[(''id'', JStr ''550e8400-e29b-41d4-a716-446655440000'')], [(''id'', JNull)], [(''id'', JNull)]])"
proof -
  let ?valid = "[(''id'', JStr ''550e8400-e29b-41d4-a716-446655440000'')]"
  let ?null = "[(''id'', JNull)]"
  have low: "toLowerCase ''uuid'' = ''uuid''" by (simp add: toLowerCase_def lower_char_def)
  have len: "length uuid_rows = 3" by (simp add: uuid_rows_def)
  have ok: "uuidRegex_test ''550e8400-e29b-41d4-a716-446655440000''"
    by (simp add: uuidRegex_test_def uuid_char_ok_def is_hex_def)
  have no: "\<not> uuidRegex_test ''not-a-uuid''" by (simp add: uuidRegex_test_def)
  have tr: "transformData env0 uuid_rows t = [?valid, ?null, ?null]"
    if "tbl_columns t = [k]" "col_name k = ''id''" "col_type k = ''uuid''" for t k
    using that ok no
    by (simp add: uuid_rows_def transformData_def transformRow_def transformCell_def
        transformValue_def get_prop_def set_prop_def low String_js_def)
  have tr1: "transformData env0 uuid_rows ids_def = [?valid, ?null, ?null]"
    by (rule tr[of _ "column ''id'' ''uuid''"]) (simp_all add: ids_def_def column_def)
  have tr2: "transformData env0 uuid_rows ids_nullable = [?valid, ?null, ?null]"
    by (rule tr[of _ "nullable_column ''id'' ''uuid''"])
       (simp_all add: ids_nullable_def nullable_column_def column_def)
  let ?src = "db_with PostgreSQL [(ids_text, uuid_rows)]"
  let ?tgt1 = "db_with PostgreSQL [(ids_def, [])]"
  let ?tgt2 = "db_with PostgreSQL [(ids_nullable, [])]"
  have n1: "tbl_name ids_def = ''ids''" by (simp add: ids_def_def)
  have n2: "tbl_name ids_nullable = ''ids''" by (simp add: ids_nullable_def)
  have rs1: "rows_of ?src ''ids'' = uuid_rows" "rows_of ?tgt1 ''ids'' = []"
    by (simp_all add: rows_of_def db_with_def n1 ids_text_def)
  have rs2: "rows_of ?src ''ids'' = uuid_rows" "rows_of ?tgt2 ''ids'' = []"
    by (simp_all add: rows_of_def db_with_def n2 ids_text_def)
  have a1: "accepts ?tgt1 ''ids'' ?valid" "\<not> accepts ?tgt1 ''ids'' ?null"
    by (simp_all add: accepts_def insert_ok_def has_column_def columns_of_def is_null_def
        Object_keys_def get_prop_def db_with_def ids_def_def column_def)
  have a2: "accepts ?tgt2 ''ids'' ?valid" "accepts ?tgt2 ''ids'' ?null"
    by (simp_all add: accepts_def insert_ok_def has_column_def columns_of_def is_null_def
        Object_keys_def get_prop_def db_with_def ids_nullable_def nullable_column_def column_def)
  have all1: "\<not> (\<forall>r\<in>set (rows_of ?src (tbl_name ids_def)).
      accepts ?tgt1 (tbl_name ids_def) (transformRow env0 ids_def r))"
    using tr1 a1 unfolding n1 rs1 by (auto simp: transformData_def uuid_rows_def)
  have all2: "\<forall>r\<in>set (rows_of ?src (tbl_name ids_nullable)).
      accepts ?tgt2 (tbl_name ids_nullable) (transformRow env0 ids_nullable r)"
    using tr2 a2 unfolding n2 rs2 by (auto simp: transformData_def uuid_rows_def)
  have pos: "(0::nat) < 1000" by simp
  have h1: "has_table ?src (tbl_name ids_def)" "has_table ?tgt1 (tbl_name ids_def)"
    by (simp_all add: has_table_def db_with_def n1 ids_text_def)
  have c1: "column ''id'' ''uuid'' \<in> set (tbl_columns ids_def)"
    "col_name (column ''id'' ''uuid'') \<noteq> ''__proto__''"
    "toLowerCase (col_type (column ''id'' ''uuid'')) = ''uuid''"
    "\<forall>c'\<in>set (tbl_columns ids_def). col_name c' = col_name (column ''id'' ''uuid'') \<longrightarrow>
        col_type c' = col_type (column ''id'' ''uuid'')"
    by (simp_all add: ids_def_def column_def low)
  note run1 = migrateFull_uuid[OF pos h1 c1, of env0,
      THEN conjunct2, THEN conjunct2, THEN conjunct2, THEN conjunct1, unfolded if_not_P[OF all1]]
  then have first: "\<exists>tgt'. migrateTableData env0 1000 ?src ?tgt1 ids_def = Inl (QueryFailed ''ids'', tgt') \<and>
      rows_of tgt' ''ids'' = [?valid]"
    unfolding n1 rs1 tr1 using a1 by simp
  have h2: "has_table ?src (tbl_name ids_nullable)" "has_table ?tgt2 (tbl_name ids_nullable)"
    by (simp_all add: has_table_def db_with_def n2 ids_text_def)
  have c2: "nullable_column ''id'' ''uuid'' \<in> set (tbl_columns ids_nullable)"
    "col_name (nullable_column ''id'' ''uuid'') \<noteq> ''__proto__''"
    "toLowerCase (col_type (nullable_column ''id'' ''uuid'')) = ''uuid''"
    "\<forall>c'\<in>set (tbl_columns ids_nullable). col_name c' = col_name (nullable_column ''id'' ''uuid'') \<longrightarrow>
        col_type c' = col_type (nullable_column ''id'' ''uuid'')"
    by (simp_all add: ids_nullable_def nullable_column_def column_def low)
  note run2 = migrateFull_uuid[OF pos h2 c2, of env0,
      THEN conjunct2, THEN conjunct2, THEN conjunct2, THEN conjunct1, unfolded if_P[OF all2]]
  then have second: "\<exists>pages tgt'. migrateTableData env0 1000 ?src ?tgt2 ids_nullable = Inr (pages, 3, tgt') \<and>
      rows_of tgt' ''ids'' = [?valid, ?null, ?null]"
    unfolding n2 rs2 tr2 len by simp
  have has: "has_table ?src ''ids''" by (simp add: has_table_def db_with_def ids_text_def)
  from pos has low tr1 first second show ?thesis by blast
qed

section \<open>Integrity validation\<close>

lemma getCount_rows:
  "has_table d n \<Longrightarrow> getCount d n = Inr (length (rows_of d n))"
  by (auto simp: has_table_def getCount_def rows_of_def)

lemma getCount_missing:
  "\<not> has_table d n \<Longrightarrow> getCount d n = Inl (QueryFailed n)"
  by (auto simp: has_table_def getCount_def)

lemma countMismatches_ok:
  "\<forall>t\<in>set ts. has_table src (tbl_name t) \<and> has_table tgt (tbl_name t) \<Longrightarrow>
   countMismatches src tgt ts acc =
     Inr (acc @ map (\<lambda>t. \<lparr>mm_table = tbl_name t,
                          mm_sourceCount = length (rows_of src (tbl_name t)),
                          mm_targetCount = length (rows_of tgt (tbl_name t))\<rparr>)
                (filter (\<lambda>t. length (rows_of src (tbl_name t)) \<noteq> length (rows_of tgt (tbl_name t))) ts))"
proof (induction ts arbitrary: acc)
  case Nil
  show ?case by simp
next
  case (Cons t ts)
  from Cons.prems have h: "has_table src (tbl_name t)" "has_table tgt (tbl_name t)"
    and rest: "\<forall>t\<in>set ts. has_table src (tbl_name t) \<and> has_table tgt (tbl_name t)"
    by simp_all
  show ?case
    by (simp add: getCount_rows[OF h(1)] getCount_rows[OF h(2)] Cons.IH[OF rest])
qed

lemma countMismatches_fail:
  "\<not> (\<forall>t\<in>set ts. has_table src (tbl_name t) \<and> has_table tgt (tbl_name t)) \<Longrightarrow>
   \<exists>e. countMismatches src tgt ts acc = Inl e"
proof (induction ts arbitrary: acc)
  case Nil
  then show ?case by simp
next
  case (Cons t ts)
  show ?case
  proof (cases "has_table src (tbl_name t)")
    case False
    then show ?thesis by (simp add: getCount_missing)
  next
    case s: True
    show ?thesis
    proof (cases "has_table tgt (tbl_name t)")
      case False
      then show ?thesis by (simp add: getCount_rows[OF s] getCount_missing)
    next
      case True
      with s Cons.prems have "\<not> (\<forall>t\<in>set ts. has_table src (tbl_name t) \<and> has_table tgt (tbl_name t))"
        by simp
      from Cons.IH[OF this] show ?thesis
        by (simp add: getCount_rows[OF s] getCount_rows[OF True])
    qed
  qed
qed

text \<open>
  Claim C8.  \<^verbatim>\<open>validateDataIntegrity\<close> returns exactly when every table of the schema can be
  counted in both databases.  What it returns lists, in schema order, one entry for every
  table whose source and target counts differ, each entry with the table's name and both
  counts; \<open>isValid\<close> is true exactly when that list is empty.  So it returns \<open>isValid = false\<close>
  with a non-empty list if and only if some table's counts differ.
\<close>

theorem validateDataIntegrity_mismatches:
  "((\<exists>r. validateDataIntegrity src tgt schema = Inr r) \<longleftrightarrow>
      (\<forall>t\<in>set (sch_tables schema). has_table src (tbl_name t) \<and> has_table tgt (tbl_name t))) \<and>
   (\<forall>r. validateDataIntegrity src tgt schema = Inr r \<longrightarrow>
      mismatches r =
        map (\<lambda>t. \<lparr>mm_table = tbl_name t,
                   mm_sourceCount = length (rows_of src (tbl_name t)),
                   mm_targetCount = length (rows_of tgt (tbl_name t))\<rparr>)
          (filter (\<lambda>t. length (rows_of src (tbl_name t)) \<noteq> length (rows_of tgt (tbl_name t)))
             (sch_tables schema)) \<and>
      isValid r = (mismatches r = []) \<and>
      ((\<not> isValid r \<and> mismatches r \<noteq> []) \<longleftrightarrow>
         (\<exists>t\<in>set (sch_tables schema).
             length (rows_of src (tbl_name t)) \<noteq> length (rows_of tgt (tbl_name t)))))"
proof (cases "\<forall>t\<in>set (sch_tables schema). has_table src (tbl_name t) \<and> has_table tgt (tbl_name t)")
  case True
  let ?ms = "map (\<lambda>t. \<lparr>mm_table = tbl_name t,
                   mm_sourceCount = length (rows_of src (tbl_name t)),
                   mm_targetCount = length (rows_of tgt (tbl_name t))\<rparr>)
          (filter (\<lambda>t. length (rows_of src (tbl_name t)) \<noteq> length (rows_of tgt (tbl_name t)))
             (sch_tables schema))"
  have v: "validateDataIntegrity src tgt schema = Inr \<lparr>isValid = (length ?ms = 0), mismatches = ?ms\<rparr>"
    unfolding validateDataIntegrity_def countMismatches_ok[OF True, of "[]"] by simp
  have e: "(?ms \<noteq> []) = (\<exists>t\<in>set (sch_tables schema).
             length (rows_of src (tbl_name t)) \<noteq> length (rows_of tgt (tbl_name t)))"
    by (simp add: filter_empty_conv)
  show ?thesis using True e unfolding v by auto
next
  case False
  from countMismatches_fail[OF False, of "[]"] obtain e where
    "countMismatches src tgt (sch_tables schema) [] = Inl e" ..
  then have "validateDataIntegrity src tgt schema = Inl e"
    by (simp add: validateDataIntegrity_def)
  with False show ?thesis by simp
qed

theorem validateDataIntegrity_mismatches_witness:
  "validateDataIntegrity
      (db_of [(''users'', [user_row, user_row]), (''orders'', [user_row])])
      (db_of [(''users'', [user_row]), (''orders'', [user_row])])
      \<lparr>sch_version = ''1.0'', sch_tables = [users_def, orders_def]\<rparr> =
    Inr \<lparr>isValid = False,
         mismatches = [\<lparr>mm_table = ''users'', mm_sourceCount = 2, mm_targetCount = 1\<rparr>]\<rparr>"
proof -
  let ?src = "db_of [(''users'', [user_row, user_row]), (''orders'', [user_row])]"
  let ?tgt = "db_of [(''users'', [user_row]), (''orders'', [user_row])]"
  let ?schema = "\<lparr>sch_version = ''1.0'', sch_tables = [users_def, orders_def]\<rparr>"
  have has: "\<forall>t\<in>set (sch_tables ?schema). has_table ?src (tbl_name t) \<and> has_table ?tgt (tbl_name t)"
    by (simp add: has_table_def db_of_def users_def_def orders_def_def)
  with validateDataIntegrity_mismatches[of ?src ?tgt ?schema]
  obtain r where r: "validateDataIntegrity ?src ?tgt ?schema = Inr r" by blast
  with validateDataIntegrity_mismatches[of ?src ?tgt ?schema]
  have "mismatches r = [\<lparr>mm_table = ''users'', mm_sourceCount = 2, mm_targetCount = 1\<rparr>]"
    and "isValid r = (mismatches r = [])"
    by (simp_all add: rows_of_def db_of_def users_def_def orders_def_def)
  then have "r = \<lparr>isValid = False,
         mismatches = [\<lparr>mm_table = ''users'', mm_sourceCount = 2, mm_targetCount = 1\<rparr>]\<rparr>"
    by (cases r) simp
  with r show ?thesis by simp
qed

section \<open>Schema evolution: the column diff\<close>

lemma Map_fold_keys:
  "fst ` set (foldl (\<lambda>m (k, v). AList.update k v m) acc es) = fst ` set acc \<union> fst ` set es"
proof (induction es arbitrary: acc)
  case Nil
  show ?case by simp
next
  case (Cons e es)
  obtain k v where e: "e = (k, v)" by (cases e)
  have "fst ` set (AList.update k v acc) = insert k (fst ` set acc)"
    by (simp add: AList.dom_update)
  then show ?case using Cons.IH[of "AList.update k v acc"] by (simp add: e)
qed

lemma Map_fold_distinct:
  "distinct (map fst acc) \<Longrightarrow>
   distinct (map fst (foldl (\<lambda>m (k, v). AList.update k v m) acc es))"
proof (induction es arbitrary: acc)
  case Nil
  then show ?case by simp
next
  case (Cons e es)
  obtain k v where e: "e = (k, v)" by (cases e)
  have "distinct (map fst (AList.update k v acc))"
    using Cons.prems by (rule AList.distinct_update)
  from Cons.IH[OF this] show ?case by (simp add: e)
qed

lemma update_subset: "set (AList.update k v m) \<subseteq> insert (k, v) (set m)"
  by (induction m) auto

lemma Map_fold_subset:
  "set (foldl (\<lambda>m (k, v). AList.update k v m) acc es) \<subseteq> set acc \<union> set es"
proof (induction es arbitrary: acc)
  case Nil
  show ?case by simp
next
  case (Cons e es)
  obtain k v where e: "e = (k, v)" by (cases e)
  have "set (foldl (\<lambda>m (k, v). AList.update k v m) (AList.update k v acc) es)
      \<subseteq> set (AList.update k v acc) \<union> set es" by (rule Cons.IH)
  also have "\<dots> \<subseteq> insert (k, v) (set acc) \<union> set es"
    using update_subset[of k v acc] by blast
  finally show ?case by (auto simp: e)
qed

lemma js_Map_keys: "fst ` set (js_Map es) = fst ` set es"
  unfolding js_Map_def using Map_fold_keys[of "[]" es] by simp

lemma js_Map_distinct: "distinct (map fst (js_Map es))"
  unfolding js_Map_def by (rule Map_fold_distinct) simp

lemma js_Map_subset: "set (js_Map es) \<subseteq> set es"
  unfolding js_Map_def using Map_fold_subset[of "[]" es] by simp

lemma js_Map_None: "(map_of (js_Map es) k = None) = (k \<notin> fst ` set es)"
  by (simp add: map_of_eq_None_iff js_Map_keys)

lemma columnMap_entry:
  assumes "(n, c) \<in> set (columnMap t)"
  shows "c \<in> set (tbl_columns t) \<and> col_name c = n"
proof -
  from assms js_Map_subset have "(n, c) \<in> set (map (\<lambda>col. (col_name col, col)) (tbl_columns t))"
    unfolding columnMap_def by blast
  then show ?thesis by auto
qed

lemma columnMap_distinct: "distinct (map fst (columnMap t))"
  unfolding columnMap_def by (rule js_Map_distinct)

lemma columnMap_None: "(map_of (columnMap t) n = None) = (n \<notin> col_name ` set (tbl_columns t))"
  unfolding columnMap_def js_Map_None by (simp add: image_image)

lemma columnMap_mem: "((n, c) \<in> set (columnMap t)) = (map_of (columnMap t) n = Some c)"
  using columnMap_distinct[of t] by (metis map_of_SomeD map_of_is_SomeI)

lemma columnMap_Some: "(\<exists>c. map_of (columnMap t) n = Some c) = (n \<in> col_name ` set (tbl_columns t))"
  using columnMap_None[of t n] by (cases "map_of (columnMap t) n") auto

lemma columnMap_filter_names:
  "col_name ` set (map snd (filter P (columnMap t))) =
     {n. \<exists>c. map_of (columnMap t) n = Some c \<and> P (n, c)}"
proof (rule set_eqI, rule iffI)
  fix n assume "n \<in> col_name ` set (map snd (filter P (columnMap t)))"
  then obtain e where e: "e \<in> set (columnMap t)" "P e" "n = col_name (snd e)" by auto
  obtain k c where kc: "e = (k, c)" by (cases e)
  from e(1) kc columnMap_entry[of k c t] have "col_name c = k" by simp
  with e kc have "map_of (columnMap t) n = Some c \<and> P (n, c)"
    by (simp add: columnMap_mem)
  then show "n \<in> {n. \<exists>c. map_of (columnMap t) n = Some c \<and> P (n, c)}" by blast
next
  fix n assume "n \<in> {n. \<exists>c. map_of (columnMap t) n = Some c \<and> P (n, c)}"
  then obtain c where c: "map_of (columnMap t) n = Some c" "P (n, c)" by blast
  then have m: "(n, c) \<in> set (columnMap t)" by (simp add: columnMap_mem)
  with columnMap_entry[of n c t] have "col_name c = n" by simp
  moreover from m c(2) have "c \<in> set (map snd (filter P (columnMap t)))" by force
  ultimately show "n \<in> col_name ` set (map snd (filter P (columnMap t)))" by blast
qed

lemma columnMap_filter_distinct:
  "distinct (map col_name (map snd (filter P (columnMap t))))"
proof -
  have "col_name (snd e) = fst e" if "e \<in> set (filter P (columnMap t))" for e
  proof -
    obtain k c where kc: "e = (k, c)" by (cases e)
    with that columnMap_entry[of k c t] show ?thesis by simp
  qed
  then have eq: "map (\<lambda>e. col_name (snd e)) (filter P (columnMap t)) = map fst (filter P (columnMap t))"
    by (intro map_cong) simp_all
  have d: "distinct (map fst (filter P (columnMap t)))"
    using columnMap_distinct[of t] by (rule distinct_map_filter)
  have c: "map col_name (map snd (filter P (columnMap t))) =
      map (\<lambda>e. col_name (snd e)) (filter P (columnMap t))"
    by (simp add: o_def)
  show ?thesis unfolding c eq by (rule d)
qed

text \<open>The two loops of \<^verbatim>\<open>calculateTableChanges\<close>, as filters.\<close>

lemma loop1_add:
  "addColumns (foldl (\<lambda>ch (name, targetCol).
                   case map_of cur name of
                     None \<Rightarrow> ch\<lparr>addColumns := addColumns ch @ [targetCol]\<rparr>
                   | Some currentCol \<Rightarrow>
                       if columnsDiffer currentCol targetCol
                       then ch\<lparr>modifyColumns := modifyColumns ch @ [targetCol]\<rparr>
                       else ch) ch es) =
   addColumns ch @ map snd (filter (\<lambda>(n, c). map_of cur n = None) es)"
  by (induction es arbitrary: ch) (auto split: option.splits if_splits)

lemma loop1_modify:
  "modifyColumns (foldl (\<lambda>ch (name, targetCol).
                   case map_of cur name of
                     None \<Rightarrow> ch\<lparr>addColumns := addColumns ch @ [targetCol]\<rparr>
                   | Some currentCol \<Rightarrow>
                       if columnsDiffer currentCol targetCol
                       then ch\<lparr>modifyColumns := modifyColumns ch @ [targetCol]\<rparr>
                       else ch) ch es) =
   modifyColumns ch @ map snd (filter (\<lambda>(n, c). case map_of cur n of None \<Rightarrow> False
                                                  | Some cc \<Rightarrow> columnsDiffer cc c) es)"
  by (induction es arbitrary: ch) (auto split: option.splits if_splits)

lemma loop1_drop:
  "dropColumns (foldl (\<lambda>ch (name, targetCol).
                   case map_of cur name of
                     None \<Rightarrow> ch\<lparr>addColumns := addColumns ch @ [targetCol]\<rparr>
                   | Some currentCol \<Rightarrow>
                       if columnsDiffer currentCol targetCol
                       then ch\<lparr>modifyColumns := modifyColumns ch @ [targetCol]\<rparr>
                       else ch) ch es) = dropColumns ch"
  by (induction es arbitrary: ch) (auto split: option.splits if_splits)

lemma loop2_drop:
  "dropColumns (foldl (\<lambda>ch (name, currentCol).
                   case map_of tgt name of
                     None \<Rightarrow> ch\<lparr>dropColumns := dropColumns ch @ [currentCol]\<rparr>
                   | Some targetCol \<Rightarrow> ch) ch es) =
   dropColumns ch @ map snd (filter (\<lambda>(n, c). map_of tgt n = None) es)"
  by (induction es arbitrary: ch) (auto split: option.splits if_splits)

lemma loop2_add:
  "addColumns (foldl (\<lambda>ch (name, currentCol).
                   case map_of tgt name of
                     None \<Rightarrow> ch\<lparr>dropColumns := dropColumns ch @ [currentCol]\<rparr>
                   | Some targetCol \<Rightarrow> ch) ch es) = addColumns ch"
  by (induction es arbitrary: ch) (auto split: option.splits if_splits)

lemma loop2_modify:
  "modifyColumns (foldl (\<lambda>ch (name, currentCol).
                   case map_of tgt name of
                     None \<Rightarrow> ch\<lparr>dropColumns := dropColumns ch @ [currentCol]\<rparr>
                   | Some targetCol \<Rightarrow> ch) ch es) = modifyColumns ch"
  by (induction es arbitrary: ch) (auto split: option.splits if_splits)

lemma calculateTableChanges_filters:
  "addColumns (calculateTableChanges current tgt_t) =
     map snd (filter (\<lambda>(n, c). map_of (columnMap current) n = None) (columnMap tgt_t))"
  "modifyColumns (calculateTableChanges current tgt_t) =
     map snd (filter (\<lambda>(n, c). case map_of (columnMap current) n of
                                 None \<Rightarrow> False | Some cc \<Rightarrow> columnsDiffer cc c) (columnMap tgt_t))"
  "dropColumns (calculateTableChanges current tgt_t) =
     map snd (filter (\<lambda>(n, c). map_of (columnMap tgt_t) n = None) (columnMap current))"
  unfolding calculateTableChanges_def Let_def
  by (simp_all add: loop1_add loop1_modify loop1_drop loop2_add loop2_modify loop2_drop)

lemma alterColumn_name: "col_name (alterColumn m c) = col_name c"
  by (simp add: alterColumn_def)

lemma modify_names:
  "map col_name (foldl (\<lambda>cs m. map (alterColumn m) cs) cs ms) = map col_name cs"
  by (induction ms arbitrary: cs) (simp_all add: alterColumn_name o_def)

lemma drop_set:
  "set (foldl (\<lambda>cs d. filter (\<lambda>c. col_name c \<noteq> col_name d) cs) cs ds) =
     {c \<in> set cs. col_name c \<notin> col_name ` set ds}"
  by (induction ds arbitrary: cs) auto

lemma applyChanges_names:
  "col_name ` set (applyChanges cols ch) =
     (col_name ` set cols \<union> col_name ` set (addColumns ch)) - col_name ` set (dropColumns ch)"
proof -
  let ?m = "foldl (\<lambda>cs m. map (alterColumn m) cs) (cols @ addColumns ch) (modifyColumns ch)"
  have "col_name ` set ?m = set (map col_name ?m)" by simp
  also have "\<dots> = set (map col_name (cols @ addColumns ch))" by (simp only: modify_names)
  finally have m: "col_name ` set ?m = col_name ` set cols \<union> col_name ` set (addColumns ch)"
    by (simp add: image_Un)
  have "col_name ` set (applyChanges cols ch) =
      col_name ` {c \<in> set ?m. col_name c \<notin> col_name ` set (dropColumns ch)}"
    unfolding applyChanges_def Let_def drop_set ..
  also have "\<dots> = col_name ` set ?m - col_name ` set (dropColumns ch)" by auto
  finally show ?thesis by (simp only: m)
qed

text \<open>
  Claim C7, as stated, fails in one clause: the names in the add, modify and drop sets do
  not make up the union of both column-name sets, because a column present in both tables
  and equal in type, nullability and default is in none of the three.  Here the target
  adds \<open>phone\<close> to \<open>id\<close> and \<open>email\<close>: the diff is add \<open>phone\<close>, modify nothing, drop nothing.
\<close>

theorem calculateTableChanges_union_counterexample:
  "calculateTableChanges contacts_v1 contacts_v2 =
     \<lparr>addColumns = [column ''phone'' ''string''], modifyColumns = [], dropColumns = []\<rparr> \<and>
   col_name ` (set (addColumns (calculateTableChanges contacts_v1 contacts_v2)) \<union>
               set (modifyColumns (calculateTableChanges contacts_v1 contacts_v2)) \<union>
               set (dropColumns (calculateTableChanges contacts_v1 contacts_v2))) \<noteq>
   col_name ` set (tbl_columns contacts_v1) \<union> col_name ` set (tbl_columns contacts_v2)"
proof -
  have ch: "calculateTableChanges contacts_v1 contacts_v2 =
     \<lparr>addColumns = [column ''phone'' ''string''], modifyColumns = [], dropColumns = []\<rparr>"
    by (simp add: calculateTableChanges_def columnMap_def js_Map_def contacts_v1_def contacts_v2_def
        column_def columnsDiffer_def strict_eq_def)
  show ?thesis
    unfolding ch by (simp add: contacts_v1_def contacts_v2_def column_def)
qed

text \<open>
  Claim C7, amended.  For every pair of table definitions, with the columns of each keyed by
  name as \<^verbatim>\<open>new Map\<close> keys them: the add list holds the target columns whose name is
  absent from current, the drop list the current columns whose name is absent from
  target, and the modify list the target columns whose name is in both and for which
  \<^verbatim>\<open>columnsDiffer\<close> holds (type, nullability or default not strictly equal).  No name occurs
  twice in a list, the three name sets are pairwise disjoint, and their union is the union
  of both column-name sets without the names of the columns that are in both and do not
  differ.  Adding, then modifying, then dropping turns the columns of current into columns
  with exactly the names of target.
\<close>

theorem calculateTableChanges_diff:
  "let ch = calculateTableChanges current tgt_t;
       A = col_name ` set (addColumns ch);
       M = col_name ` set (modifyColumns ch);
       D = col_name ` set (dropColumns ch);
       CN = col_name ` set (tbl_columns current);
       TN = col_name ` set (tbl_columns tgt_t);
       same = {n. \<exists>cc tc. map_of (columnMap current) n = Some cc \<and>
                    map_of (columnMap tgt_t) n = Some tc \<and> \<not> columnsDiffer cc tc}
   in addColumns ch = [c. (n, c) \<leftarrow> columnMap tgt_t, map_of (columnMap current) n = None] \<and>
      dropColumns ch = [c. (n, c) \<leftarrow> columnMap current, map_of (columnMap tgt_t) n = None] \<and>
      modifyColumns ch =
        [c. (n, c) \<leftarrow> columnMap tgt_t,
            (case map_of (columnMap current) n of None \<Rightarrow> False | Some cc \<Rightarrow> columnsDiffer cc c)] \<and>
      A = TN - CN \<and> D = CN - TN \<and>
      M = {n. \<exists>cc tc. map_of (columnMap current) n = Some cc \<and>
                 map_of (columnMap tgt_t) n = Some tc \<and> columnsDiffer cc tc} \<and>
      distinct (map col_name (addColumns ch)) \<and> distinct (map col_name (modifyColumns ch)) \<and>
      distinct (map col_name (dropColumns ch)) \<and>
      A \<inter> M = {} \<and> A \<inter> D = {} \<and> M \<inter> D = {} \<and>
      A \<union> M \<union> D = (CN \<union> TN) - same \<and>
      col_name ` set (applyChanges (tbl_columns current) ch) = TN"
proof -
  let ?ch = "calculateTableChanges current tgt_t"
  let ?CN = "col_name ` set (tbl_columns current)"
  let ?TN = "col_name ` set (tbl_columns tgt_t)"
  have A: "col_name ` set (addColumns ?ch) = ?TN - ?CN"
  proof -
    have "col_name ` set (addColumns ?ch) =
        {n. (\<exists>c. map_of (columnMap tgt_t) n = Some c) \<and> map_of (columnMap current) n = None}"
      unfolding calculateTableChanges_filters columnMap_filter_names by simp
    also have "\<dots> = {n. n \<in> ?TN \<and> n \<notin> ?CN}"
      unfolding columnMap_Some columnMap_None ..
    finally show ?thesis unfolding set_diff_eq .
  qed
  have D: "col_name ` set (dropColumns ?ch) = ?CN - ?TN"
  proof -
    have "col_name ` set (dropColumns ?ch) =
        {n. (\<exists>c. map_of (columnMap current) n = Some c) \<and> map_of (columnMap tgt_t) n = None}"
      unfolding calculateTableChanges_filters columnMap_filter_names by simp
    also have "\<dots> = {n. n \<in> ?CN \<and> n \<notin> ?TN}"
      unfolding columnMap_Some columnMap_None ..
    finally show ?thesis unfolding set_diff_eq .
  qed
  have M: "col_name ` set (modifyColumns ?ch) =
      {n. \<exists>cc tc. map_of (columnMap current) n = Some cc \<and>
                 map_of (columnMap tgt_t) n = Some tc \<and> columnsDiffer cc tc}"
    unfolding calculateTableChanges_filters columnMap_filter_names
    by (auto split: option.splits)
  have lc: "map snd (filter P xs) = [c. (n, c) \<leftarrow> xs, P (n, c)]"
    for P :: "string \<times> ColumnDefinition \<Rightarrow> bool" and xs
    by (induction xs) auto
  have lists: "addColumns ?ch = [c. (n, c) \<leftarrow> columnMap tgt_t, map_of (columnMap current) n = None]"
    "dropColumns ?ch = [c. (n, c) \<leftarrow> columnMap current, map_of (columnMap tgt_t) n = None]"
    "modifyColumns ?ch =
        [c. (n, c) \<leftarrow> columnMap tgt_t,
            (case map_of (columnMap current) n of None \<Rightarrow> False | Some cc \<Rightarrow> columnsDiffer cc c)]"
    unfolding calculateTableChanges_filters lc by simp_all
  have same: "(?CN \<union> ?TN) - {n. \<exists>cc tc. map_of (columnMap current) n = Some cc \<and>
                    map_of (columnMap tgt_t) n = Some tc \<and> \<not> columnsDiffer cc tc} =
      (?TN - ?CN) \<union> {n. \<exists>cc tc. map_of (columnMap current) n = Some cc \<and>
                 map_of (columnMap tgt_t) n = Some tc \<and> columnsDiffer cc tc} \<union> (?CN - ?TN)"
    (is "?L = ?R")
  proof (rule set_eqI)
    fix n
    show "(n \<in> ?L) = (n \<in> ?R)"
      using columnMap_Some[of current n] columnMap_Some[of tgt_t n] by auto
  qed
  have Mdisj: "{n. \<exists>cc tc. map_of (columnMap current) n = Some cc \<and>
                 map_of (columnMap tgt_t) n = Some tc \<and> columnsDiffer cc tc} \<subseteq> ?CN \<inter> ?TN"
    using columnMap_Some[of current] columnMap_Some[of tgt_t] by blast
  have ap: "col_name ` set (applyChanges (tbl_columns current) ?ch) = ?TN"
    unfolding applyChanges_names A D by blast
  have dist: "distinct (map col_name (addColumns ?ch))" "distinct (map col_name (modifyColumns ?ch))"
    "distinct (map col_name (dropColumns ?ch))"
    unfolding calculateTableChanges_filters by (rule columnMap_filter_distinct)+
  show ?thesis
    unfolding Let_def A D M same
    using lists dist ap Mdisj by (intro conjI) blast+
qed


theorem calculateTableChanges_diff_witness:
  "addColumns (calculateTableChanges contacts_v2 contacts_v3) = [column ''mobile'' ''string''] \<and>
   modifyColumns (calculateTableChanges contacts_v2 contacts_v3) = [column ''email'' ''text''] \<and>
   dropColumns (calculateTableChanges contacts_v2 contacts_v3) = [column ''phone'' ''string''] \<and>
   col_name ` set (applyChanges (tbl_columns contacts_v2) (calculateTableChanges contacts_v2 contacts_v3)) =
     {''id'', ''email'', ''mobile''}"
proof -
  note d = calculateTableChanges_diff[of contacts_v2 contacts_v3, unfolded Let_def]
  have m2: "columnMap contacts_v2 =
      [(''id'', column ''id'' ''integer''), (''email'', column ''email'' ''string''),
       (''phone'', column ''phone'' ''string'')]"
    by (simp add: columnMap_def js_Map_def contacts_v2_def column_def)
  have m3: "columnMap contacts_v3 =
      [(''id'', column ''id'' ''integer''), (''email'', column ''email'' ''text''),
       (''mobile'', column ''mobile'' ''string'')]"
    by (simp add: columnMap_def js_Map_def contacts_v3_def column_def)
  from d have "addColumns (calculateTableChanges contacts_v2 contacts_v3) =
      [c. (n, c) \<leftarrow> columnMap contacts_v3, map_of (columnMap contacts_v2) n = None]"
    by (elim conjE)
  then have a: "addColumns (calculateTableChanges contacts_v2 contacts_v3) = [column ''mobile'' ''string'']"
    unfolding m2 m3 by simp
  from d have "dropColumns (calculateTableChanges contacts_v2 contacts_v3) =
      [c. (n, c) \<leftarrow> columnMap contacts_v2, map_of (columnMap contacts_v3) n = None]"
    by (elim conjE)
  then have dr: "dropColumns (calculateTableChanges contacts_v2 contacts_v3) = [column ''phone'' ''string'']"
    unfolding m2 m3 by simp
  from d have "modifyColumns (calculateTableChanges contacts_v2 contacts_v3) =
      [c. (n, c) \<leftarrow> columnMap contacts_v3,
            (case map_of (columnMap contacts_v2) n of None \<Rightarrow> False | Some cc \<Rightarrow> columnsDiffer cc c)]"
    by (elim conjE)
  then have mo: "modifyColumns (calculateTableChanges contacts_v2 contacts_v3) = [column ''email'' ''text'']"
    unfolding m2 m3 by (simp add: columnsDiffer_def strict_eq_def column_def)
  from d have "col_name ` set (applyChanges (tbl_columns contacts_v2)
        (calculateTableChanges contacts_v2 contacts_v3)) = col_name ` set (tbl_columns contacts_v3)"
    by (elim conjE)
  then have ap: "col_name ` set (applyChanges (tbl_columns contacts_v2)
        (calculateTableChanges contacts_v2 contacts_v3)) = {''id'', ''email'', ''mobile''}"
    by (simp add: contacts_v3_def column_def insert_commute)
  show ?thesis using a mo dr ap by simp
qed

section \<open>The job state machine\<close>

text \<open>
  Claim C9.  For a job whose status is not \<open>running\<close> (pending, paused, completed or
  failed), \<^verbatim>\<open>pauseMigration\<close> throws \<^verbatim>\<open>Cannot pause job ID\<close> and changes nothing: the
  engine is as before, so the job keeps its status, progress, logs and every other field,
  no event is emitted and the clock is not read.
\<close>

theorem pauseMigration_rejected:
  assumes "map_of (jobs eng) jobId = Some job" and "job_status job \<noteq> Running"
  shows "pauseMigration clock eng jobId = (Some (CannotPause jobId), eng)"
  using assms by (simp add: pauseMigration_def)

theorem pauseMigration_rejected_witness:
  "map_of (jobs engine1) ''j1'' = Some done_job \<and> job_status done_job = Completed \<and>
   pauseMigration (\<lambda>k. 0) engine1 ''j1'' = (Some (CannotPause ''j1''), engine1)"
  using pauseMigration_rejected[of engine1 "''j1''" done_job "\<lambda>k. 0"]
  by (simp add: engine1_def done_job_def)

lemma progress_events:
  "\<exists>more. r_events (foldl (\<lambda>r p. emit ''jobProgress'' (set_progress (f p) r)) r ps) = r_events r @ more"
proof (induction ps arbitrary: r)
  case Nil
  show ?case by simp
next
  case (Cons p ps)
  from Cons.IH[of "emit ''jobProgress'' (set_progress (f p) r)"]
  show ?case by (auto simp: emit_def set_progress_def)
qed

lemma executeWithDowntime_events:
  "\<exists>more. r_events (snd (executeWithDowntime clock ph r)) = r_events r @ more"
proof -
  let ?r2 = "set_progress 30 (push_log clock LWarn ''Executing migration with planned downtime'' r)"
  from progress_events[of "\<lambda>p. 30 + p * (6 / 10)" ?r2 "fst (ph_migrateData ph)"]
  obtain more where
    "r_events (foldl (\<lambda>r p. emit ''jobProgress'' (set_progress (30 + p * (6 / 10)) r)) ?r2
        (fst (ph_migrateData ph))) = r_events ?r2 @ more" ..
  then show ?thesis
    by (auto simp: executeWithDowntime_def Let_def push_log_def set_progress_def
        split: option.splits)
qed

lemma executeZeroDowntime_events:
  "\<exists>more. r_events (snd (executeZeroDowntime clock ph r)) = r_events r @ more"
proof -
  let ?r3 = "set_progress 30 (set_progress 10
      (push_log clock LInfo ''Executing zero-downtime migration'' r))"
  from progress_events[of "\<lambda>p. 30 + p * (5 / 10)" ?r3 "fst (ph_migrateDataIncremental ph)"]
  obtain more where
    "r_events (foldl (\<lambda>r p. emit ''jobProgress'' (set_progress (30 + p * (5 / 10)) r)) ?r3
        (fst (ph_migrateDataIncremental ph))) = r_events ?r3 @ more" ..
  then show ?thesis
    by (auto simp: executeZeroDowntime_def Let_def push_log_def set_progress_def
        split: option.splits)
qed

lemma executeMigration_events:
  "\<exists>more. r_events (snd (executeMigration clock ph r)) = r_events r @ more"
proof -
  let ?r1 = "push_log clock LInfo ''Initializing database connections'' r"
  have r1: "r_events ?r1 = r_events r" by (simp add: push_log_def)
  obtain res r2 where x: "(if strat_downtime (job_strategy (r_job ?r1))
                 then executeWithDowntime clock ph ?r1
                 else executeZeroDowntime clock ph ?r1) = (res, r2)" by (rule prod.exhaust)
  have "\<exists>more. r_events r2 = r_events ?r1 @ more"
    using executeWithDowntime_events[of clock ph ?r1] executeZeroDowntime_events[of clock ph ?r1] x
    by (auto split: if_splits)
  then obtain more where m: "r_events r2 = r_events r @ more" using r1 by auto
  show ?thesis
    using x m
    by (cases res) (auto simp: executeMigration_def Let_def emit_def push_log_def set_progress_def
        set_endTime_def set_status_def split: option.splits)
qed

lemma executeMigration_completed:
  "executeMigration clock ph r = (None, r') \<Longrightarrow> job_status (r_job r') = Completed"
  by (auto simp: executeMigration_def Let_def emit_def push_log_def set_progress_def
        set_endTime_def set_status_def split: option.splits prod.splits if_splits)

text \<open>
  \<^verbatim>\<open>startMigration\<close> checks only that the job exists.  Whatever the status of the job, it
  sets the status to \<open>running\<close>, emits \<open>jobStarted\<close> with the job in that state and runs the
  migration, which leaves the job \<open>completed\<close> when it returns and \<open>failed\<close> when it throws.
\<close>

lemma startMigration_ignores_status:
  assumes "map_of (jobs eng) jobId = Some job"
  shows "\<exists>res eng' started more final.
      startMigration clock ph eng jobId = (res, eng') \<and>
      events eng' = events eng @ (''jobStarted'', started) # more \<and>
      job_status started = Running \<and>
      map_of (jobs eng') jobId = Some final \<and>
      job_status final = (if res = None then Completed else Failed)"
proof -
  let ?r = "emit ''jobStarted''
              (push_log clock LInfo
                 (''Starting migration with strategy: '' @ strat_name (job_strategy job))
                 (set_startTime clock (set_status Running (load eng job))))"
  have ev: "r_events ?r = events eng @ [(''jobStarted'', r_job ?r)]"
    by (simp add: emit_def push_log_def set_startTime_def set_status_def load_def)
  have st: "job_status (r_job ?r) = Running"
    by (simp add: emit_def push_log_def set_startTime_def set_status_def load_def)
  obtain res r' where x: "executeMigration clock ph ?r = (res, r')" by (rule prod.exhaust)
  from executeMigration_events[of clock ph ?r] x obtain more where
    m: "r_events r' = r_events ?r @ more" by auto
  show ?thesis
  proof (cases res)
    case None
    with x have c: "job_status (r_job r') = Completed" by (simp add: executeMigration_completed)
    have "startMigration clock ph eng jobId = (None, store eng jobId r')"
      using assms x None by (simp add: startMigration_def Let_def)
    moreover have "events (store eng jobId r') = events eng @ (''jobStarted'', r_job ?r) # more"
      using m ev by (simp add: store_def)
    moreover have "map_of (jobs (store eng jobId r')) jobId = Some (r_job r')"
      by (simp add: store_def AList.update_conv')
    ultimately show ?thesis using st c by (intro exI[of _ None] exI conjI) auto
  next
    case (Some msg)
    let ?f = "emit ''jobFailed''
                (push_log clock LError (''Migration failed: '' @ msg)
                  (set_error msg (set_status Failed r')))"
    have "startMigration clock ph eng jobId = (Some (PhaseFailed msg), store eng jobId ?f)"
      using assms x Some by (simp add: startMigration_def Let_def)
    moreover have "events (store eng jobId ?f) =
        events eng @ (''jobStarted'', r_job ?r) # (more @ [(''jobFailed'', r_job ?f)])"
      using m ev by (simp add: store_def emit_def push_log_def set_error_def set_status_def)
    moreover have "map_of (jobs (store eng jobId ?f)) jobId = Some (r_job ?f)"
      by (simp add: store_def AList.update_conv')
    moreover have "job_status (r_job ?f) = Failed"
      by (simp add: emit_def push_log_def set_error_def set_status_def)
    ultimately show ?thesis using st by (intro exI[of _ "Some (PhaseFailed msg)"] exI conjI) auto
  qed
qed

text \<open>
  Claim C2 does not hold of \<^verbatim>\<open>startMigration\<close>, which lacks the status guard that
  \<^verbatim>\<open>pauseMigration\<close> and \<^verbatim>\<open>resumeMigration\<close> have.  The job \<open>j1\<close> is \<open>completed\<close>, and
  pausing or resuming it is rejected.  Starting it is not: the job is set to \<open>running\<close>
  (the \<open>jobStarted\<close> event shows it in that state), its start time is overwritten and the
  migration runs again, ending \<open>completed\<close> a second time.  When the connection fails on
  that second start, the job that was \<open>completed\<close> ends \<open>failed\<close> with the error recorded,
  and the error is thrown to the caller.
\<close>

theorem startMigration_restarts_completed_job:
  "map_of (jobs engine1) ''j1'' = Some done_job \<and> job_status done_job = Completed \<and>
   job_startTime done_job = Some 10 \<and>
   fst (pauseMigration int engine1 ''j1'') = Some (CannotPause ''j1'') \<and>
   fst (resumeMigration int engine1 ''j1'') = Some (CannotResume ''j1'') \<and>
   fst (startMigration int all_ok engine1 ''j1'') = None \<and>
   map (\<lambda>(n, j). (n, job_status j)) (events (snd (startMigration int all_ok engine1 ''j1''))) =
     [(''jobStarted'', Running), (''jobProgress'', Running), (''jobCompleted'', Completed)] \<and>
   map_option job_startTime (map_of (jobs (snd (startMigration int all_ok engine1 ''j1''))) ''j1'') =
     Some (Some 0) \<and>
   fst (startMigration int no_connection engine1 ''j1'') =
     Some (PhaseFailed ''Failed to connect to PostgreSQL'') \<and>
   map (\<lambda>(n, j). (n, job_status j)) (events (snd (startMigration int no_connection engine1 ''j1''))) =
     [(''jobStarted'', Running), (''jobFailed'', Failed)] \<and>
   map_option job_status (map_of (jobs (snd (startMigration int no_connection engine1 ''j1''))) ''j1'') =
     Some Failed \<and>
   map_option job_error (map_of (jobs (snd (startMigration int no_connection engine1 ''j1''))) ''j1'') =
     Some (Some ''Failed to connect to PostgreSQL'')"
  by (simp add: startMigration_def pauseMigration_def resumeMigration_def executeMigration_def
      executeWithDowntime_def engine1_def
      done_job_def strategy0_def all_ok_def no_connection_def load_def store_def emit_def
      push_log_def set_status_def set_progress_def set_startTime_def set_endTime_def
      set_error_def Let_def)

section \<open>Incremental migration\<close>

lemma sql_max_Cons: "sql_max (r # rs) c = max_opt (ts_of r c) (sql_max rs c)"
  by (simp add: sql_max_def)

lemma sql_max_append: "sql_max (xs @ ys) c = max_opt (sql_max xs c) (sql_max ys c)"
proof (induction xs)
  case Nil
  show ?case by (simp add: sql_max_def)
next
  case (Cons x xs)
  have assoc: "max_opt a (max_opt b d) = max_opt (max_opt a b) d" for a b d
    by (cases a; cases b; cases d) auto
  show ?case by (simp add: sql_max_Cons Cons.IH assoc)
qed






text \<open>
  On PostgreSQL the \<^verbatim>\<open>?\<close> form does not parse: the watermark query always fails, and
  \<^verbatim>\<open>getDataSinceWatermark\<close> returns the first \<open>batchSize\<close> rows of the table whatever the
  watermark is.
\<close>

lemma getDataSinceWatermark_postgres:
  assumes "db_kind d = PostgreSQL"
  shows "getDataSinceWatermark B d n w = take B (rows_of d n)"
  using assms
  by (simp add: getDataSinceWatermark_def select_since_def parses_def select_limit_def rows_of_def
      split: option.splits)










section \<open>Cutover\<close>

lemma validateShadowLoop_mismatch:
  assumes "\<forall>(s, h)\<in>set maps. has_table src s \<and> has_table tgt h"
    and "\<exists>(s, h)\<in>set maps. length (rows_of src s) \<noteq> length (rows_of tgt h)"
  shows "\<exists>s h. (s, h) \<in> set maps \<and> length (rows_of src s) \<noteq> length (rows_of tgt h) \<and>
     validateShadowLoop src tgt maps =
       Some (ValidationFailed s (length (rows_of src s)) (length (rows_of tgt h)))"
  using assms
proof (induction maps)
  case Nil
  then show ?case by simp
next
  case (Cons m maps)
  obtain s h where m: "m = (s, h)" by (cases m)
  from Cons.prems(1) m have hs: "has_table src s" and hh: "has_table tgt h" by simp_all
  show ?case
  proof (cases "length (rows_of src s) = length (rows_of tgt h)")
    case False
    then have "validateShadowLoop src tgt (m # maps) =
        Some (ValidationFailed s (length (rows_of src s)) (length (rows_of tgt h)))"
      by (simp add: m getCount_rows[OF hs] getCount_rows[OF hh])
    with False show ?thesis by (intro exI[of _ s] exI[of _ h]) (simp add: m)
  next
    case True
    with Cons.prems m have
      "\<forall>(s, h)\<in>set maps. has_table src s \<and> has_table tgt h"
      "\<exists>(s, h)\<in>set maps. length (rows_of src s) \<noteq> length (rows_of tgt h)"
      by auto
    from Cons.IH[OF this] obtain s' h' where
      r: "(s', h') \<in> set maps" "length (rows_of src s') \<noteq> length (rows_of tgt h')"
         "validateShadowLoop src tgt maps =
            Some (ValidationFailed s' (length (rows_of src s')) (length (rows_of tgt h')))"
      by blast
    have "validateShadowLoop src tgt (m # maps) = validateShadowLoop src tgt maps"
      using True by (simp add: m getCount_rows[OF hs] getCount_rows[OF hh])
    with r show ?thesis by (intro exI[of _ s'] exI[of _ h']) simp
  qed
qed

lemma rollbackLoop_first_fails:
  assumes "has_table (targetDb w) h"
  shows "rollbackLoop clock ((orig, h) # rest) w =
      (Some (QueryFailed orig), w\<lparr>readings := readings w + 1\<rparr>)"
  using assms by (simp add: renameTable_def Let_def)

lemma rollbackCutover_nothing:
  assumes "shadowTables w = (orig, h) # rest" and "has_table (targetDb w) h"
    and "db_saved (targetDb w) = None"
  shows "rollbackCutover clock w = w\<lparr>readings := readings w + 1\<rparr>"
proof -
  let ?w0 = "w\<lparr>targetDb := beginTransaction (targetDb w)\<rparr>"
  have h0: "has_table (targetDb ?w0) h"
    using assms(2,3) by (simp add: beginTransaction_def has_table_def)
  have "rollbackLoop clock (shadowTables ?w0) ?w0 =
      (Some (QueryFailed orig), ?w0\<lparr>readings := readings ?w0 + 1\<rparr>)"
    using assms(1) rollbackLoop_first_fails[OF h0] by simp
  then show ?thesis
    using assms(3) by (simp add: rollbackCutover_def Let_def beginTransaction_def rollback_def)
qed

text \<open>
  Claim C3.  Let every mapped source table exist on the source, every shadow table exist on
  the target, no transaction be open on the target and no listener of \<open>cutoverStarted\<close> or
  \<open>cutoverFailed\<close> throw.  If the row count of some source table differs from that of its
  shadow, \<^verbatim>\<open>cutover\<close> throws the validation error of such a table, carrying the source and
  the shadow count, before maintenance mode is entered and before \<^verbatim>\<open>renameTables\<close> runs.
  The \<^verbatim>\<open>catch\<close> block still runs \<^verbatim>\<open>rollbackCutover\<close>, whose first statement tries to rename
  the first live table to its shadow name; the shadow exists, so the statement is rejected
  and the transaction rolled back.  Both databases are as before: no table is renamed.
\<close>

theorem cutover_validation_mismatch:
  assumes "\<not> listeners ''cutoverStarted''" and "\<not> listeners ''cutoverFailed''"
    and "db_saved (targetDb w) = None"
    and "\<forall>(s, h)\<in>set (shadowTables w). has_table (sourceDb w) s \<and> has_table (targetDb w) h"
    and "\<exists>(s, h)\<in>set (shadowTables w).
           length (rows_of (sourceDb w) s) \<noteq> length (rows_of (targetDb w) h)"
  shows "\<exists>s h. (s, h) \<in> set (shadowTables w) \<and>
     length (rows_of (sourceDb w) s) \<noteq> length (rows_of (targetDb w) h) \<and>
     cutover listeners clock w =
       (Some (ValidationFailed s (length (rows_of (sourceDb w) s)) (length (rows_of (targetDb w) h))),
        w\<lparr>emitted := emitted w @ [''cutoverStarted'', ''cutoverFailed''],
          readings := readings w + 1\<rparr>)"
proof -
  let ?w0 = "w\<lparr>emitted := emitted w @ [''cutoverStarted'']\<rparr>"
  from validateShadowLoop_mismatch[OF assms(4,5)] obtain s h where
    sh: "(s, h) \<in> set (shadowTables w)"
        "length (rows_of (sourceDb w) s) \<noteq> length (rows_of (targetDb w) h)"
    and v: "validateShadowLoop (sourceDb w) (targetDb w) (shadowTables w) =
       Some (ValidationFailed s (length (rows_of (sourceDb w) s)) (length (rows_of (targetDb w) h)))"
    by blast
  let ?e = "ValidationFailed s (length (rows_of (sourceDb w) s)) (length (rows_of (targetDb w) h))"
  have steps: "cutoverSteps listeners clock ?w0 = (Some ?e, ?w0)"
    using v by (simp add: cutoverSteps_def validateShadowData_def)
  from sh(1) obtain orig h1 rest where maps: "shadowTables w = (orig, h1) # rest"
    by (cases "shadowTables w") auto
  with assms(4) have h1: "has_table (targetDb w) h1" by simp
  have rb: "rollbackCutover clock ?w0 = ?w0\<lparr>readings := readings ?w0 + 1\<rparr>"
    using maps h1 assms(3) by (intro rollbackCutover_nothing[of _ orig h1 rest]) simp_all
  have "cutover listeners clock w =
      (Some ?e, w\<lparr>emitted := emitted w @ [''cutoverStarted'', ''cutoverFailed''],
                  readings := readings w + 1\<rparr>)"
    using assms(1,2) steps rb by (simp add: cutover_def emit_event_def)
  with sh show ?thesis by blast
qed


theorem cutover_validation_mismatch_witness:
  "cutover (\<lambda>n. False) (\<lambda>k. 1000 + k) worldD =
     (Some (ValidationFailed ''users'' 100 99),
      worldD\<lparr>emitted := [''cutoverStarted'', ''cutoverFailed''], readings := 1\<rparr>) \<and>
   targetDb (snd (cutover (\<lambda>n. False) (\<lambda>k. 1000 + k) worldD)) = targetDb worldD"
proof -
  have "\<exists>s h. (s, h) \<in> set (shadowTables worldD) \<and>
     length (rows_of (sourceDb worldD) s) \<noteq> length (rows_of (targetDb worldD) h) \<and>
     cutover (\<lambda>n. False) (\<lambda>k. 1000 + k) worldD =
       (Some (ValidationFailed s (length (rows_of (sourceDb worldD) s))
                (length (rows_of (targetDb worldD) h))),
        worldD\<lparr>emitted := emitted worldD @ [''cutoverStarted'', ''cutoverFailed''],
          readings := readings worldD + 1\<rparr>)"
    by (rule cutover_validation_mismatch)
       (simp_all add: worldD_def db_of_def has_table_def rows_of_def)
  then obtain s h where sh: "(s, h) \<in> set (shadowTables worldD)"
    and c: "cutover (\<lambda>n. False) (\<lambda>k. 1000 + k) worldD =
       (Some (ValidationFailed s (length (rows_of (sourceDb worldD) s))
                (length (rows_of (targetDb worldD) h))),
        worldD\<lparr>emitted := emitted worldD @ [''cutoverStarted'', ''cutoverFailed''],
          readings := readings worldD + 1\<rparr>)"
    by blast
  from sh have "s = ''users''" "h = ''users_shadow''" by (simp_all add: worldD_def)
  with c show ?thesis by (simp add: worldD_def db_of_def rows_of_def)
qed

lemmas eval_cutover =
  cutover_def cutoverSteps_def emit_event_def validateShadowData_def getCount_def finalSync_def
  getChangesSince_def select_since_def select_limit_def parses_def has_column_def columns_of_def
  newer_than_def ts_of_def insertData_def renameTables_def rollbackCutover_def renameTable_def
  has_table_def backupName_def beginTransaction_def commit_def rollback_def
  enableMaintenanceMode_def disableMaintenanceMode_def world1_def users_stream_def user_row_def
  db_with_def users_live_def users_def_def column_def nullable_column_def Let_def

text \<open>
  Claim C1 does not hold of \<^verbatim>\<open>rollbackCutover\<close>.  The renames have been committed when a
  listener of \<open>connectionsUpdated\<close> throws.  \<^verbatim>\<open>rollbackCutover\<close> builds the backup name from
  a new reading of the clock, 1001, while the backup was made at 1000: the rename of
  \<open>users_backup_1001\<close> fails, the rollback transaction is rolled back, and the tables stay
  swapped, the former live table under \<open>users_backup_1000\<close> and the former shadow under
  \<open>users\<close>; the source stays in maintenance mode.  With a clock that stands still at 1000
  the same run restores both names.
\<close>

theorem cutover_rollback_after_commit:
  "db_tables (targetDb world1) = [(''users'', []), (''users_shadow'', [user_row])] \<and>
   fst (cutover (\<lambda>n. n = ''connectionsUpdated'') (\<lambda>k. 1000 + k) world1) =
     Some (ListenerThrew ''connectionsUpdated'') \<and>
   db_tables (targetDb (snd (cutover (\<lambda>n. n = ''connectionsUpdated'') (\<lambda>k. 1000 + k) world1))) =
     [(''users_backup_1000'', []), (''users'', [user_row])] \<and>
   db_maintenance (sourceDb (snd (cutover (\<lambda>n. n = ''connectionsUpdated'') (\<lambda>k. 1000 + k) world1))) \<and>
   db_tables (targetDb (snd (cutover (\<lambda>n. n = ''connectionsUpdated'') (\<lambda>k. 1000) world1))) =
     [(''users'', []), (''users_shadow'', [user_row])]"
  by (simp add: eval_cutover)


end
